theory Spec2Isabelle
  imports Complex_Main "HOL-Library.AList"
begin

section \<open>Strings, values and errors\<close>

text \<open>
  A JavaScript string is a sequence of UTF-16 code units. The regular expressions of the
  text processor mention code units beyond one byte (the en dash, the em dash, the middle
  dot), so a code unit is a natural number and a string literal of the source is
  written \<open>str ''...''\<close>.
\<close>

type_synonym jschar = nat
type_synonym jsstring = "jschar list"

definition str :: "string \<Rightarrow> jsstring" where
  "str cs = map of_char cs"

text \<open>The values stored under the keys of a \<open>Record<string, any>\<close> in this program.\<close>

datatype jsval = VStr jsstring | VNum int

text \<open>
  A \<open>Record<string, any>\<close> is an association list in insertion order; assigning an
  existing key keeps its place (\<open>AList.update\<close>), as a JavaScript object does for
  keys that are not array indices.
\<close>

type_synonym metadata = "(jsstring \<times> jsval) list"

text \<open>\<open>Object.assign(base, extra)\<close> and the object spread \<open>{...base, ...extra}\<close>.\<close>

definition assign :: "('k \<times> 'v) list \<Rightarrow> ('k \<times> 'v) list \<Rightarrow> ('k \<times> 'v) list" where
  "assign base extra = foldl (\<lambda>m (k, v). AList.update k v m) base extra"

text \<open>
  \<open>Error msg\<close> is \<open>throw new Error(msg)\<close> of this repository; \<open>TypeError\<close> is the
  runtime's own; \<open>Rejected n\<close> is a failure raised by an external collaborator
  (embedding provider, vector database, generation provider, PDF parser, splitter);
  \<open>Pending\<close> stands for a promise that never settles.
\<close>

datatype error = Error jsstring | TypeError | Rejected nat | Pending

section \<open>Regular expressions of the text processor\<close>

text \<open>
  The text processor is a chain of \<open>String.prototype.replace\<close> calls with global
  regular expressions. They are modelled by a backtracking matcher over the constructs
  these expressions use. \<open>is_line_terminator\<close> is what \<open>.\<close>, \<open>^\<close> and \<open>$\<close> look
  at, \<open>is_space\<close> is \<open>\s\<close> (and what \<open>trim\<close> strips).
\<close>

definition is_line_terminator :: "jschar \<Rightarrow> bool" where
  "is_line_terminator c = (c = 10 \<or> c = 13 \<or> c = 8232 \<or> c = 8233)"

definition is_space :: "jschar \<Rightarrow> bool" where
  "is_space c =
     (c = 9 \<or> c = 10 \<or> c = 11 \<or> c = 12 \<or> c = 13 \<or> c = 32 \<or> c = 160 \<or> c = 5760
      \<or> (8192 \<le> c \<and> c \<le> 8202) \<or> c = 8232 \<or> c = 8233 \<or> c = 8239 \<or> c = 8287
      \<or> c = 12288 \<or> c = 65279)"

text \<open>The members of a character class: a character, a range, \<open>\s\<close>, \<open>\d\<close>.\<close>

datatype citem = Ch jschar | Rng jschar jschar | Space | Digit

fun in_item :: "citem \<Rightarrow> jschar \<Rightarrow> bool" where
  "in_item (Ch a) c = (c = a)"
| "in_item (Rng a b) c = (a \<le> c \<and> c \<le> b)"
| "in_item Space c = is_space c"
| "in_item Digit c = (48 \<le> c \<and> c \<le> 57)"

text \<open>
  With the \<open>i\<close> flag characters are compared after canonicalisation. The expressions
  under that flag contain ASCII letters only, and no character outside ASCII
  canonicalises to an ASCII one, so the ASCII case mapping decides every comparison.
\<close>

definition upper :: "jschar \<Rightarrow> jschar" where
  "upper c = (if 97 \<le> c \<and> c \<le> 122 then c - 32 else c)"

definition lower :: "jschar \<Rightarrow> jschar" where
  "lower c = (if 65 \<le> c \<and> c \<le> 90 then c + 32 else c)"

record flags =
  ignoreCase :: bool
  multiline :: bool

definition in_class :: "flags \<Rightarrow> citem list \<Rightarrow> jschar \<Rightarrow> bool" where
  "in_class f cls c =
     (if ignoreCase f
      then list_ex (\<lambda>it. in_item it c \<or> in_item it (upper c) \<or> in_item it (lower c)) cls
      else list_ex (\<lambda>it. in_item it c) cls)"

text \<open>
  \<open>Rep min max greedy r\<close> is a quantifier (\<open>max = None\<close>: unbounded),
  \<open>Group n r\<close> the n-th capturing group, \<open>Ahead True r\<close> is \<open>(?=r)\<close>,
  \<open>Ahead False r\<close> is \<open>(?!r)\<close>, \<open>NotBehind cls\<close> is \<open>(?<![cls])\<close>.
\<close>

datatype regex =
    Eps
  | Class "citem list"
  | Dot
  | Bol
  | Eol
  | Seq regex regex
  | Alt regex regex
  | Rep nat "nat option" bool regex
  | Group nat regex
  | Backref nat
  | Ahead bool regex
  | NotBehind "citem list"

text \<open>
  A match state is the position reached and the captures (group, start, end), the most
  recent first. A matcher answers every way it can match from a state, in the order a
  backtracking engine tries them: the head of the list is the match the engine reports.
\<close>

type_synonym captures = "(nat \<times> nat \<times> nat) list"
type_synonym mstate = "nat \<times> captures"

fun groups_of :: "regex \<Rightarrow> nat list" where
  "groups_of (Seq a b) = groups_of a @ groups_of b"
| "groups_of (Alt a b) = groups_of a @ groups_of b"
| "groups_of (Rep mn mx greedy r) = groups_of r"
| "groups_of (Group n r) = n # groups_of r"
| "groups_of (Ahead b r) = groups_of r"
| "groups_of _ = []"

text \<open>
  The quantifier, for the matcher \<open>m\<close> of its body: the captures of the groups \<open>gs\<close>
  inside the body are reset at each iteration, and once the minimum is reached an
  iteration that consumes nothing is discarded. Each iteration lowers the minimum or
  moves forward in the string, so \<open>min + (length s - position)\<close> iterations are never
  exceeded: that bound is the fuel \<open>run\<close> supplies.
\<close>

fun rep ::
  "(mstate \<Rightarrow> mstate list) \<Rightarrow> nat list \<Rightarrow> bool \<Rightarrow> nat \<Rightarrow> nat \<Rightarrow> nat option \<Rightarrow> mstate
     \<Rightarrow> mstate list" where
  "rep m gs greedy 0 mn mx x = []"
| "rep m gs greedy (Suc fuel) mn mx x =
     (if mx = Some 0 then [x]
      else
        (let iter = concat (map (\<lambda>y. if mn = 0 \<and> fst y = fst x then []
                                       else rep m gs greedy fuel (mn - 1)
                                              (map_option (\<lambda>k. k - 1) mx) y)
                                (m (fst x, filter (\<lambda>(n, _). n \<notin> set gs) (snd x))))
         in if mn \<noteq> 0 then iter
            else if greedy then iter @ [x]
            else x # iter))"

definition same_text :: "flags \<Rightarrow> jsstring \<Rightarrow> jsstring \<Rightarrow> bool" where
  "same_text f a b = (if ignoreCase f then map upper a = map upper b else a = b)"

fun run :: "flags \<Rightarrow> jsstring \<Rightarrow> regex \<Rightarrow> mstate \<Rightarrow> mstate list" where
  "run f s Eps x = [x]"
| "run f s (Class cls) x =
     (if fst x < length s \<and> in_class f cls (s ! fst x) then [(Suc (fst x), snd x)] else [])"
| "run f s Dot x =
     (if fst x < length s \<and> \<not> is_line_terminator (s ! fst x) then [(Suc (fst x), snd x)]
      else [])"
| "run f s Bol x =
     (if fst x = 0 \<or> (multiline f \<and> is_line_terminator (s ! (fst x - 1))) then [x] else [])"
| "run f s Eol x =
     (if fst x = length s \<or> (multiline f \<and> fst x < length s \<and> is_line_terminator (s ! fst x))
      then [x] else [])"
| "run f s (Seq a b) x = concat (map (\<lambda>y. run f s b y) (run f s a x))"
| "run f s (Alt a b) x = run f s a x @ run f s b x"
| "run f s (Rep mn mx greedy r) x =
     rep (\<lambda>y. run f s r y) (groups_of r) greedy (Suc (mn + (length s - fst x))) mn mx x"
| "run f s (Group n r) x =
     map (\<lambda>y. (fst y, (n, fst x, fst y) # snd y)) (run f s r x)"
| "run f s (Backref n) x =
     (case map_of (snd x) n of
        None \<Rightarrow> [x]
      | Some (i, e) \<Rightarrow>
          if fst x + (e - i) \<le> length s
             \<and> same_text f (take (e - i) (drop (fst x) s)) (take (e - i) (drop i s))
          then [(fst x + (e - i), snd x)] else [])"
| "run f s (Ahead positive r) x =
     (case run f s r x of
        [] \<Rightarrow> if positive then [] else [x]
      | y # _ \<Rightarrow> if positive then [(fst x, snd y)] else [])"
| "run f s (NotBehind cls) x =
     (if 0 < fst x \<and> in_class f cls (s ! (fst x - 1)) then [] else [x])"

text \<open>
  A matcher moves forward within a string of length \<open>n\<close> when, from a position in
  the string, every state it answers is at or after that position and within the string.
\<close>

definition forward :: "nat \<Rightarrow> (mstate \<Rightarrow> mstate list) \<Rightarrow> bool" where
  "forward n m = (\<forall>x y. y \<in> set (m x) \<longrightarrow> fst x \<le> n \<longrightarrow> fst x \<le> fst y \<and> fst y \<le> n)"

text \<open>The replacement string: literal text and \<open>$n\<close>.\<close>

datatype repl = Lit jsstring | Ref nat

fun expand :: "jsstring \<Rightarrow> captures \<Rightarrow> repl list \<Rightarrow> jsstring" where
  "expand s caps [] = []"
| "expand s caps (Lit t # rs) = t @ expand s caps rs"
| "expand s caps (Ref n # rs) =
     (case map_of caps n of
        None \<Rightarrow> []
      | Some (i, e) \<Rightarrow> take (e - i) (drop i s)) @ expand s caps rs"

text \<open>
  \<open>s.replace(regex, replacement)\<close> with the \<open>g\<close> flag: from \<open>lastIndex\<close> the first
  index where the expression matches is looked for; text before it is copied; after an
  empty match the search resumes one character further. The scan visits the indices
  \<open>0..length s\<close> in order.
\<close>

fun replace_scan ::
  "flags \<Rightarrow> regex \<Rightarrow> repl list \<Rightarrow> jsstring \<Rightarrow> nat list \<Rightarrow> nat \<Rightarrow> jsstring" where
  "replace_scan f r t s [] lastIndex = []"
| "replace_scan f r t s (i # is) lastIndex =
     (if i < lastIndex then replace_scan f r t s is lastIndex
      else
        (case run f s r (i, []) of
           [] \<Rightarrow> take 1 (drop i s) @ replace_scan f r t s is lastIndex
         | y # _ \<Rightarrow>
             expand s (snd y) t
             @ (if fst y \<le> i then take 1 (drop i s) @ replace_scan f r t s is (Suc i)
                else replace_scan f r t s is (fst y))))"

definition replace :: "flags \<Rightarrow> regex \<Rightarrow> repl list \<Rightarrow> jsstring \<Rightarrow> jsstring" where
  "replace f r t s = replace_scan f r t s [0..<Suc (length s)] 0"

text \<open>Shorthands for writing the expressions down.\<close>

definition char_item :: "char \<Rightarrow> citem" where
  "char_item c = Ch (of_char c)"

definition lit :: "string \<Rightarrow> regex" where
  "lit cs = foldr (\<lambda>c r. Seq (Class [char_item c]) r) cs Eps"

definition cat :: "regex list \<Rightarrow> regex" where
  "cat rs = foldr Seq rs Eps"

definition many :: "regex \<Rightarrow> regex" where "many r = Rep 0 None True r"
definition many1 :: "regex \<Rightarrow> regex" where "many1 r = Rep 1 None True r"
definition lazy_many1 :: "regex \<Rightarrow> regex" where "lazy_many1 r = Rep 1 None False r"
definition optional :: "regex \<Rightarrow> regex" where "optional r = Rep 0 (Some 1) True r"
definition at_least :: "nat \<Rightarrow> regex \<Rightarrow> regex" where "at_least n r = Rep n None True r"

definition ws :: regex where "ws = Class [Space]"
definition digit :: regex where "digit = Class [Digit]"
definition lf :: regex where "lf = Class [Ch 10]"
definition dash :: regex where "dash = Class [char_item CHR ''-'', Ch 8211, Ch 8212]"
definition period :: regex where "period = Class [char_item CHR ''.'']"

definition flags_gm :: flags where "flags_gm = \<lparr>ignoreCase = False, multiline = True\<rparr>"
definition flags_gim :: flags where "flags_gim = \<lparr>ignoreCase = True, multiline = True\<rparr>"
definition flags_g :: flags where "flags_g = \<lparr>ignoreCase = False, multiline = False\<rparr>"

section \<open>Text processor (DefaultTextProcessor)\<close>

text \<open>
  Four replacements by the empty string, in this order:
  \<^verbatim>\<open>/^\s*Page\s+\d+(\s+of\s+\d+)?\s*$/gim\<close>,
  \<^verbatim>\<open>/^\s*\d+(\s+of\s+\d+)?\s*$/gm\<close>,
  \<^verbatim>\<open>/^\s*[dashes]{1,}\s*\d+\s+of\s+\d+\s*[dashes]{1,}\s*$/gm\<close> and
  \<^verbatim>\<open>/^\s*[dashes]{1,}\s*\d+\s*[dashes]{1,}\s*$/gm\<close>,
  where the dashes are the hyphen, the en dash (8211) and the em dash (8212).
\<close>

definition removePageNumbers :: "jsstring \<Rightarrow> jsstring" where
  "removePageNumbers txt =
     (let t1 = replace flags_gim
                 (cat [Bol, many ws, lit ''Page'', many1 ws, many1 digit,
                       optional (Group 1 (cat [many1 ws, lit ''of'', many1 ws, many1 digit])),
                       many ws, Eol]) [] txt;
          t2 = replace flags_gm
                 (cat [Bol, many ws, many1 digit,
                       optional (Group 1 (cat [many1 ws, lit ''of'', many1 ws, many1 digit])),
                       many ws, Eol]) [] t1;
          t3 = replace flags_gm
                 (cat [Bol, many ws, at_least 1 dash, many ws, many1 digit, many1 ws,
                       lit ''of'', many1 ws, many1 digit, many ws, at_least 1 dash, many ws,
                       Eol]) [] t2
      in replace flags_gm
           (cat [Bol, many ws, at_least 1 dash, many ws, many1 digit, many ws,
                 at_least 1 dash, many ws, Eol]) [] t3)"

text \<open>\<^verbatim>\<open>/^(Company Name|Document Title|Confidential).*$/gim\<close>, replaced by the empty string\<close>

definition removeHeadersFooters :: "jsstring \<Rightarrow> jsstring" where
  "removeHeadersFooters txt =
     replace flags_gim
       (cat [Bol,
             Group 1 (Alt (lit ''Company Name'')
                       (Alt (lit ''Document Title'') (lit ''Confidential''))),
             many Dot, Eol]) [] txt"

text \<open>\<^verbatim>\<open>/(?<![.!?:])\n(?!\n)/g\<close>, replaced by a space\<close>

definition fixLineBreaks :: "jsstring \<Rightarrow> jsstring" where
  "fixLineBreaks txt =
     replace flags_g
       (cat [NotBehind [char_item CHR ''.'', char_item CHR ''!'', char_item CHR ''?'',
                        char_item CHR '':''],
             lf, Ahead False lf]) [Lit (str '' '')] txt"

text \<open>\<^verbatim>\<open>/\n{3,}/g\<close>, replaced by two line feeds\<close>

definition normalizeParagraphs :: "jsstring \<Rightarrow> jsstring" where
  "normalizeParagraphs txt = replace flags_g (at_least 3 lf) [Lit [10, 10]] txt"

text \<open>\<^verbatim>\<open>/(.*)(\n\1)+/g\<close>, replaced by \<open>$1\<close>\<close>

definition removeDuplicateParagraphs :: "jsstring \<Rightarrow> jsstring" where
  "removeDuplicateParagraphs txt =
     replace flags_g
       (cat [Group 1 (many Dot), many1 (Group 2 (cat [lf, Backref 1]))]) [Ref 1] txt"

text \<open>\<^verbatim>\<open>/^(.+)(\n\1)+$/gm\<close>, replaced by \<open>$1\<close>\<close>

definition removeDuplicateLines :: "jsstring \<Rightarrow> jsstring" where
  "removeDuplicateLines txt =
     replace flags_gm
       (cat [Bol, Group 1 (many1 Dot), many1 (Group 2 (cat [lf, Backref 1])), Eol])
       [Ref 1] txt"

text \<open>\<^verbatim>\<open>/\n(?=[A-Z][A-Za-z\s]{3,}\n)/g\<close>, replaced by two line feeds\<close>

definition preserveSectionSpacing :: "jsstring \<Rightarrow> jsstring" where
  "preserveSectionSpacing txt =
     replace flags_g
       (cat [lf,
             Ahead True
               (cat [Class [Rng 65 90], at_least 3 (Class [Rng 65 90, Rng 97 122, Space]),
                     lf])]) [Lit [10, 10]] txt"

text \<open>
  \<^verbatim>\<open>/\s(?:\.{3,}|[middle dot]{2,}|[dashes]{2,})\s*\d+\s*$/gm\<close>, replaced by the empty
  string; the middle dot is the code unit 183.
\<close>

definition cleanTocLeaders :: "jsstring \<Rightarrow> jsstring" where
  "cleanTocLeaders txt =
     replace flags_gm
       (cat [ws,
             Alt (at_least 3 period) (Alt (at_least 2 (Class [Ch 183])) (at_least 2 dash)),
             many ws, many1 digit, many ws, Eol]) [] txt"

text \<open>\<^verbatim>\<open>/^(\d+(\.\d+)*\s+.+?)(\s\.{3,}\s*\d+)\s*$/gm\<close>, replaced by \<open>$1\<close>\<close>

definition cleanNumberedToc :: "jsstring \<Rightarrow> jsstring" where
  "cleanNumberedToc txt =
     replace flags_gm
       (cat [Bol,
             Group 1 (cat [many1 digit, many (Group 2 (cat [period, many1 digit])),
                           many1 ws, lazy_many1 Dot]),
             Group 3 (cat [ws, at_least 3 period, many ws, many1 digit]),
             many ws, Eol]) [Ref 1] txt"

text \<open>\<^verbatim>\<open>/^.{20,}(\.{3,}.{0,}){2,}$/gm\<close>, replaced by the empty string\<close>

definition removeLeaderDotLinesSafe :: "jsstring \<Rightarrow> jsstring" where
  "removeLeaderDotLinesSafe txt =
     replace flags_gm
       (cat [Bol, at_least 20 Dot,
             at_least 2 (Group 1 (cat [at_least 3 period, at_least 0 Dot])), Eol]) [] txt"

text \<open>\<open>String.prototype.trim\<close>\<close>

definition trim :: "jsstring \<Rightarrow> jsstring" where
  "trim s = rev (dropWhile is_space (rev (dropWhile is_space s)))"

text \<open>\<open>processText\<close>: \<open>if (!raw) return ''\<close>, then the passes in the source's order.\<close>

definition processText :: "jsstring \<Rightarrow> jsstring" where
  "processText raw =
     (if raw = [] then []
      else
        (let t1 = removePageNumbers raw;
             t2 = cleanTocLeaders t1;
             t3 = cleanNumberedToc t2;
             t4 = removeLeaderDotLinesSafe t3;
             t5 = removeHeadersFooters t4;
             t6 = fixLineBreaks t5;
             t7 = normalizeParagraphs t6;
             t8 = removeDuplicateLines t7;
             t9 = removeDuplicateParagraphs t8;
             t10 = preserveSectionSpacing t9
         in trim t10))"

section \<open>Documents and the outside world\<close>

type_synonym vector = "real list"

text \<open>\<open>Document\<close> of file-handler.ts; \<open>SearchResult extends Document\<close> with a score.\<close>

record Document =
  id' :: "jsstring option"
  content :: jsstring
  metadata :: "metadata option"

record SearchResult = Document +
  score :: real

record UpsertItem =
  id' :: jsstring
  embedding :: "vector option"
  text' :: jsstring
  metadata :: "metadata option"

record 'd PromptContext =
  question :: jsstring
  maxTokens :: "int option"
  sources :: "'d list option"

text \<open>The request handed to \<open>ollama.chat\<close>: the model and the (role, content) messages.\<close>

datatype ChatRequest = ChatRequest jsstring "(jsstring \<times> jsstring) list"

text \<open>What \<open>collection.query\<close> of the vector database answers: parallel nested arrays.\<close>

record QueryResult =
  ids :: "jsstring list list"
  documents :: "jsstring option list list"
  metadatas :: "metadata option list list"
  distances :: "real option list list"

type_synonym bytes = "nat list"

text \<open>
  Every call that leaves the program is recorded, in order, in the trace of the world.
  \<open>GenerateResponse\<close> records an invocation of the generator with its prompt context.
\<close>

datatype event =
    EmbedCall "jsstring list"
  | GetOrCreateCollection jsstring
  | CollectionUpsert "jsstring list" "vector list" "jsstring list" "metadata list"
  | CollectionQuery "vector option" int
  | GenerateResponse "SearchResult PromptContext"
  | OllamaChat ChatRequest
  | ParserNew
  | ParserGetInfo
  | ParserGetText "nat option"
  | ParserDestroy

text \<open>
  The external collaborators. Each answers from the calls made so far and its arguments;
  \<open>Inl\<close> (or \<open>Some\<close> for a call without a result) is a rejected call.
  \<open>splitText\<close> is the third-party recursive character splitter (chunk size, chunk
  overlap, text), \<open>uuid_v4\<close> the n-th identifier the uuid library hands out,
  \<open>utf8_decode\<close> the runtime's decoding of a buffer.
\<close>

record env =
  embedding_embed :: "event list \<Rightarrow> jsstring list \<Rightarrow> error + vector list"
  getOrCreateCollection :: "event list \<Rightarrow> jsstring \<Rightarrow> error option"
  collection_upsert ::
    "event list \<Rightarrow> jsstring list \<Rightarrow> vector list \<Rightarrow> jsstring list \<Rightarrow> metadata list \<Rightarrow> error option"
  collection_query :: "event list \<Rightarrow> vector option \<Rightarrow> int \<Rightarrow> error + QueryResult"
  ollama_chat :: "event list \<Rightarrow> ChatRequest \<Rightarrow> error + jsstring"
  pdf_getInfo :: "event list \<Rightarrow> bytes \<Rightarrow> error + nat"
  pdf_getText :: "event list \<Rightarrow> bytes \<Rightarrow> nat option \<Rightarrow> error + jsstring"
  splitText :: "int \<Rightarrow> int \<Rightarrow> jsstring \<Rightarrow> error + jsstring list"
  uuid_v4 :: "nat \<Rightarrow> jsstring"
  utf8_decode :: "bytes \<Rightarrow> jsstring"

text \<open>JavaScript array indexing: \<open>xs[i]\<close> is \<open>undefined\<close> out of range.\<close>

definition nth_opt :: "'a list \<Rightarrow> nat \<Rightarrow> 'a option" where
  "nth_opt xs i = (if i < length xs then Some (xs ! i) else None)"

definition or_else :: "'a option \<Rightarrow> 'a \<Rightarrow> 'a" where
  "or_else x d = (case x of None \<Rightarrow> d | Some v \<Rightarrow> v)"

text \<open>\<open>xs[i] || d\<close> on an array whose entries may be \<open>null\<close>.\<close>

definition at_or :: "'a option list \<Rightarrow> nat \<Rightarrow> 'a \<Rightarrow> 'a" where
  "at_or xs i d = (case nth_opt xs i of Some (Some v) \<Rightarrow> v | _ \<Rightarrow> d)"

section \<open>File handlers and the state of the process\<close>

text \<open>
  A text processor is injected into each handler; it may throw. \<open>FileInfo\<close> is the
  uploaded file.
\<close>

type_synonym TextProcessor = "jsstring \<Rightarrow> error + jsstring"

record FileInfo =
  originalname :: jsstring
  size' :: nat
  mimetype :: jsstring
  encoding :: jsstring
  buffer :: bytes

text \<open>
  \<open>NotAHandler\<close> is a value without a \<open>handleFile\<close> method: what the context holds
  after the registry lookup has answered something that is no handler.
\<close>

datatype FileHandler =
    TextFileHandler TextProcessor
  | PdfFileHandler TextProcessor
  | PdfPageFileHandler TextProcessor
  | NoopFileHandler
  | NotAHandler

type_synonym HandlerResolveParameters = "(jsstring \<times> jsval) list"

text \<open>A registry entry is a handler or a factory taking the resolution parameters.\<close>

datatype registry_entry =
    Handler FileHandler
  | Factory "HandlerResolveParameters \<Rightarrow> FileHandler"

type_synonym FileHandlerRegistry = "(jsstring \<times> registry_entry) list"

text \<open>
  The mutable state: the trace of external calls, the keys of the collection caches of
  the vector store instances (each instance has its own \<open>Map\<close>, so a key is held with
  the identity of its instance), the number of uuids drawn, the number of PDF parsers
  created and not yet destroyed, the module-level \<open>HANDLER_REGISTRY\<close> (its own
  properties) and the handler the \<open>FileHandlerContext\<close> holds.
\<close>

record world =
  trace :: "event list"
  cache :: "(nat \<times> jsstring) list"
  uuids :: nat
  open_parsers :: nat
  HANDLER_REGISTRY :: FileHandlerRegistry
  fileHandler :: "FileHandler option"

definition emit :: "event \<Rightarrow> world \<Rightarrow> world" where
  "emit ev w = w\<lparr>trace := trace w @ [ev]\<rparr>"

section \<open>Chunker configuration (chunker.ts, recursive chunker)\<close>

record ChunkingOptions =
  chunkSize :: int
  overlap :: "int option"

definition assertChunkSizeGreaterThanOverlap :: "ChunkingOptions \<Rightarrow> error + unit" where
  "assertChunkSizeGreaterThanOverlap chunkOptions =
     (case overlap chunkOptions of
        None \<Rightarrow> Inr ()
      | Some ov \<Rightarrow>
          if ov \<ge> chunkSize chunkOptions
          then Inl (Error (str ''Overlap must be smaller than chunk size.''))
          else Inr ())"

record RecursiveChunker =
  options :: ChunkingOptions

definition RecursiveChunker_new :: "ChunkingOptions \<Rightarrow> error + RecursiveChunker" where
  "RecursiveChunker_new opts =
     (case assertChunkSizeGreaterThanOverlap opts of
        Inl e \<Rightarrow> Inl e
      | Inr _ \<Rightarrow> Inr \<lparr>options = \<lparr>chunkSize = chunkSize opts, overlap = overlap opts\<rparr>\<rparr>)"


section \<open>Text chunks (chunker.ts, recursive chunker)\<close>

text \<open>\<open>createChunk\<close> draws a fresh uuid: the world counts the identifiers drawn.\<close>

definition createChunk :: "env \<Rightarrow> jsstring \<Rightarrow> metadata option \<Rightarrow> world \<Rightarrow> Document \<times> world" where
  "createChunk env c md w =
     (\<lparr>Document.id' = Some (str ''chunk-'' @ uuid_v4 env (uuids w)), content = c,
       Document.metadata = md\<rparr>,
      w\<lparr>uuids := Suc (uuids w)\<rparr>)"

text \<open>
  \<open>chunks.map((chunk, index) => this.createChunk(chunk, {...metadata, chunk: index,
  totalChunks: chunks.length}))\<close>, from index \<open>index\<close> on, \<open>n\<close> being \<open>chunks.length\<close>.
\<close>

fun createChunks ::
  "env \<Rightarrow> metadata \<Rightarrow> nat \<Rightarrow> nat \<Rightarrow> jsstring list \<Rightarrow> world \<Rightarrow> Document list \<times> world" where
  "createChunks env md n index [] w = ([], w)"
| "createChunks env md n index (c # cs) w =
     (case createChunk env c
             (Some (assign md [(str ''chunk'', VNum (int index)),
                               (str ''totalChunks'', VNum (int n))])) w of
        (d, w1) \<Rightarrow>
          (case createChunks env md n (Suc index) cs w1 of
             (ds, w2) \<Rightarrow> (d # ds, w2)))"

definition chunk ::
  "env \<Rightarrow> RecursiveChunker \<Rightarrow> jsstring \<Rightarrow> metadata option \<Rightarrow> world
     \<Rightarrow> (error + Document list) \<times> world" where
  "chunk env chunker txt md w =
     (case splitText env (chunkSize (options chunker))
             (or_else (overlap (options chunker)) 0) txt of
        Inl e \<Rightarrow> (Inl e, w)
      | Inr chunks \<Rightarrow>
          (case createChunks env (or_else md []) (length chunks) 0 chunks w of
             (ds, w1) \<Rightarrow> (Inr ds, w1)))"

section \<open>Embedding (base-embedding.ts, ollama-embedding.ts)\<close>

text \<open>
  \<open>BaseEmbedding.embed\<close>: the Ollama implementation hands the texts to the provider in
  one call and returns its embeddings as they are.
\<close>

definition embed :: "env \<Rightarrow> jsstring list \<Rightarrow> world \<Rightarrow> (error + vector list) \<times> world" where
  "embed env texts w = (embedding_embed env (trace w) texts, emit (EmbedCall texts) w)"

section \<open>Vector store (ChromaVectorStore)\<close>

text \<open>A store instance: its identity and the name of its collection.\<close>

record ChromaVectorStore =
  ref :: nat
  collectionName :: jsstring

definition getCollection :: "env \<Rightarrow> ChromaVectorStore \<Rightarrow> world \<Rightarrow> (error + unit) \<times> world" where
  "getCollection env store w =
     (if (ref store, collectionName store) \<in> set (cache w) then (Inr (), w)
      else
        (case getOrCreateCollection env (trace w) (collectionName store) of
           Some e \<Rightarrow> (Inl e, emit (GetOrCreateCollection (collectionName store)) w)
         | None \<Rightarrow>
             (Inr (), (emit (GetOrCreateCollection (collectionName store)) w)
                        \<lparr>cache := (ref store, collectionName store) # cache w\<rparr>)))"

definition upsert ::
  "env \<Rightarrow> ChromaVectorStore \<Rightarrow> UpsertItem list \<Rightarrow> world \<Rightarrow> (error + unit) \<times> world" where
  "upsert env store items w =
     (case getCollection env store w of
        (Inl e, w1) \<Rightarrow> (Inl e, w1)
      | (Inr _, w1) \<Rightarrow>
          (let ids = map UpsertItem.id' items;
               embeddings = map (\<lambda>item. or_else (embedding item) []) items;
               documents = map text' items;
               metadatas = map (\<lambda>item. or_else (UpsertItem.metadata item) []) items
           in (case collection_upsert env (trace w1) ids embeddings documents metadatas of
                 Some e \<Rightarrow> Inl e
               | None \<Rightarrow> Inr (),
               emit (CollectionUpsert ids embeddings documents metadatas) w1)))"

text \<open>
  \<open>results.documents[0].map((doc, idx) => ...)\<close>: reading \<open>[0]\<close> of an empty outer
  array gives \<open>undefined\<close>, and using it throws a TypeError; the other three arrays are
  only read inside the callback.
\<close>

definition search ::
  "env \<Rightarrow> ChromaVectorStore \<Rightarrow> vector option \<Rightarrow> int \<Rightarrow> world
     \<Rightarrow> (error + SearchResult list) \<times> world" where
  "search env store queryVector topK w =
     (case getCollection env store w of
        (Inl e, w1) \<Rightarrow> (Inl e, w1)
      | (Inr _, w1) \<Rightarrow>
          (let w2 = emit (CollectionQuery queryVector topK) w1 in
           case collection_query env (trace w1) queryVector topK of
             Inl e \<Rightarrow> (Inl e, w2)
           | Inr results \<Rightarrow>
               (case nth_opt (documents results) 0 of
                  None \<Rightarrow> (Inl TypeError, w2)
                | Some docs0 \<Rightarrow>
                    if docs0 = [] then (Inr [], w2)
                    else
                      (case (nth_opt (ids results) 0, nth_opt (metadatas results) 0,
                             nth_opt (distances results) 0) of
                         (Some ids0, Some metas0, Some dists0) \<Rightarrow>
                           (Inr (map (\<lambda>(idx, doc).
                                   \<lparr>Document.id' = nth_opt ids0 idx,
                                     content = or_else doc [],
                                     Document.metadata =
                                       Some (at_or metas0 idx []),
                                     score = at_or dists0 idx 0\<rparr>)
                                 (enumerate 0 docs0)), w2)
                       | _ \<Rightarrow> (Inl TypeError, w2)))))"

section \<open>Language model (model-base.ts, ollama-model.ts)\<close>

text \<open>The decimal digits of a number, as a template literal prints an index.\<close>

fun number_toString :: "nat \<Rightarrow> jsstring" where
  "number_toString n =
     (if n < 10 then [48 + n] else number_toString (n div 10) @ [48 + n mod 10])"

text \<open>\<open>parts.join(sep)\<close>.\<close>

fun join_with :: "jsstring \<Rightarrow> jsstring list \<Rightarrow> jsstring" where
  "join_with sep [] = []"
| "join_with sep [p] = p"
| "join_with sep (p # q # ps) = p @ sep @ join_with sep (q # ps)"

definition buildContext :: "('a Document_scheme) PromptContext \<Rightarrow> jsstring" where
  "buildContext promptCtx =
     (case sources promptCtx of
        None \<Rightarrow> []
      | Some srcs \<Rightarrow>
          if length srcs = 0 then []
          else join_with (str ''\<newline>\<newline>'')
                 (map (\<lambda>(idx, doc). str ''['' @ number_toString (idx + 1) @ str ''] '' @ content doc)
                      (enumerate 0 srcs)))"

definition buildContent :: "jsstring \<Rightarrow> jsstring \<Rightarrow> jsstring" where
  "buildContent context q =
     (if context = []
      then str ''Question: '' @ q
           @ str ''\<newline>\<newline>You don't have any relevant information to answer this question. Please say so politely.''
      else str ''Context: '' @ context @ str ''\<newline>\<newline>Question: '' @ q
           @ str ''\<newline>\<newline>Answer:'')"

record OllamaLangModel =
  model :: jsstring
  host :: jsstring

definition buildPrompt :: "OllamaLangModel \<Rightarrow> ('a Document_scheme) PromptContext \<Rightarrow> ChatRequest" where
  "buildPrompt lm promptCtx =
     (let context = buildContext promptCtx;
          c = buildContent context (question promptCtx)
      in ChatRequest (model lm)
           [(str ''system'',
             str ''You are a helpful assistant. Use the following context to answer the question. If the context doesn't contain relevant information, say so politely.''),
            (str ''user'', c)])"

definition generateResponse ::
  "env \<Rightarrow> OllamaLangModel \<Rightarrow> SearchResult PromptContext \<Rightarrow> world \<Rightarrow> (error + jsstring) \<times> world" where
  "generateResponse env lm promptCtx w =
     (let w1 = emit (GenerateResponse promptCtx) w;
          prompt = buildPrompt lm promptCtx
      in (ollama_chat env (trace w1) prompt, emit (OllamaChat prompt) w1))"

section \<open>File handlers (text, pdf, pdf-page, context)\<close>

text \<open>A handler answers one document or an array of documents.\<close>

datatype handler_result = Single Document | Many "Document list"

text \<open>
  The text handler resolves inside the stream's \<open>end\<close> callback: when the text
  processor throws there, the promise is neither resolved nor rejected.
\<close>

definition TextFileHandler_handleFile ::
  "env \<Rightarrow> TextProcessor \<Rightarrow> FileInfo \<Rightarrow> world \<Rightarrow> (error + Document) \<times> world" where
  "TextFileHandler_handleFile env textProcessor fileInfo w =
     (let fileContent = utf8_decode env (buffer fileInfo) in
      case textProcessor fileContent of
        Inl e \<Rightarrow> (Inl Pending, w)
      | Inr processedContent \<Rightarrow>
          (Inr \<lparr>Document.id' = None, content = processedContent,
                Document.metadata = Some [(str ''mimeType'', VStr (str ''text''))]\<rparr>, w))"

text \<open>\<open>new PDFParse({ data: buffer })\<close> and \<open>pdfParser.destroy()\<close>.\<close>

definition parser_new :: "world \<Rightarrow> world" where
  "parser_new w = (emit ParserNew w)\<lparr>open_parsers := Suc (open_parsers w)\<rparr>"

definition parser_destroy :: "world \<Rightarrow> world" where
  "parser_destroy w = (emit ParserDestroy w)\<lparr>open_parsers := open_parsers w - 1\<rparr>"

definition PdfFileHandler_handleFile ::
  "env \<Rightarrow> TextProcessor \<Rightarrow> FileInfo \<Rightarrow> world \<Rightarrow> (error + Document) \<times> world" where
  "PdfFileHandler_handleFile env textProcessor fileInfo w =
     (let w0 = parser_new w; w1 = emit ParserGetInfo w0 in
      case pdf_getInfo env (trace w0) (buffer fileInfo) of
        Inl e \<Rightarrow> (Inl e, w1)
      | Inr total' \<Rightarrow>
          (let w2 = emit (ParserGetText None) w1 in
           case pdf_getText env (trace w1) (buffer fileInfo) None of
             Inl e \<Rightarrow> (Inl e, w2)
           | Inr rawText \<Rightarrow>
               (case textProcessor rawText of
                  Inl e \<Rightarrow> (Inl e, w2)
                | Inr finalText \<Rightarrow>
                    (Inr \<lparr>Document.id' = None, content = finalText,
                          Document.metadata = Some [(str ''totalPages'', VNum (int total'))]\<rparr>,
                     parser_destroy w2))))"

text \<open>
  The loop \<open>for (let i = 0; i < pdfInfo.total; i++)\<close> of the per-page handler, from
  \<open>i\<close> on, with the documents pushed so far.
\<close>

function pages_loop ::
  "env \<Rightarrow> TextProcessor \<Rightarrow> bytes \<Rightarrow> nat \<Rightarrow> nat \<Rightarrow> Document list \<Rightarrow> world
     \<Rightarrow> (error + Document list) \<times> world" where
  "pages_loop env textProcessor buf total' i docs w =
     (if i < total' then
        (let w1 = emit (ParserGetText (Some (i + 1))) w in
         case pdf_getText env (trace w) buf (Some (i + 1)) of
           Inl e \<Rightarrow> (Inl e, w1)
         | Inr rawText \<Rightarrow>
             (case textProcessor rawText of
                Inl e \<Rightarrow> (Inl e, w1)
              | Inr finalText \<Rightarrow>
                  pages_loop env textProcessor buf total' (i + 1)
                    (docs @ [\<lparr>Document.id' = None, content = finalText,
                              Document.metadata =
                                Some [(str ''page'', VNum (int (i + 1))),
                                      (str ''totalPages'', VNum (int total'))]\<rparr>])
                    w1))
      else (Inr docs, w))"
  by pat_completeness auto
termination
  by (relation "measure (\<lambda>(env, textProcessor, buf, total', i, docs, w). total' - i)") auto

definition PdfPageFileHandler_handleFile ::
  "env \<Rightarrow> TextProcessor \<Rightarrow> FileInfo \<Rightarrow> world \<Rightarrow> (error + Document list) \<times> world" where
  "PdfPageFileHandler_handleFile env textProcessor fileInfo w =
     (let w0 = parser_new w; w1 = emit ParserGetInfo w0 in
      case pdf_getInfo env (trace w0) (buffer fileInfo) of
        Inl e \<Rightarrow> (Inl e, w1)
      | Inr total' \<Rightarrow>
          (case pages_loop env textProcessor (buffer fileInfo) total' 0 [] w1 of
             (Inl e, w2) \<Rightarrow> (Inl e, w2)
           | (Inr docs, w2) \<Rightarrow> (Inr docs, parser_destroy w2)))"

definition NoopFileHandler_handleFile :: "FileInfo \<Rightarrow> world \<Rightarrow> (error + Document) \<times> world" where
  "NoopFileHandler_handleFile fileInfo w =
     (Inr \<lparr>Document.id' = None, content = [], Document.metadata = None\<rparr>, w)"

text \<open>The dynamic dispatch of \<open>fileHandler.handleFile(fileInfo)\<close>.\<close>

definition one :: "(error + Document) \<times> world \<Rightarrow> (error + handler_result) \<times> world" where
  "one r = (case r of (Inl e, w) \<Rightarrow> (Inl e, w) | (Inr d, w) \<Rightarrow> (Inr (Single d), w))"

fun FileHandler_handleFile ::
  "env \<Rightarrow> FileHandler \<Rightarrow> FileInfo \<Rightarrow> world \<Rightarrow> (error + handler_result) \<times> world" where
  "FileHandler_handleFile env (TextFileHandler tp) fileInfo w =
     one (TextFileHandler_handleFile env tp fileInfo w)"
| "FileHandler_handleFile env (PdfFileHandler tp) fileInfo w =
     one (PdfFileHandler_handleFile env tp fileInfo w)"
| "FileHandler_handleFile env (PdfPageFileHandler tp) fileInfo w =
     (case PdfPageFileHandler_handleFile env tp fileInfo w of
        (Inl e, w1) \<Rightarrow> (Inl e, w1)
      | (Inr docs, w1) \<Rightarrow> (Inr (Many docs), w1))"
| "FileHandler_handleFile env NoopFileHandler fileInfo w =
     one (NoopFileHandler_handleFile fileInfo w)"
| "FileHandler_handleFile env NotAHandler fileInfo w = (Inl TypeError, w)"

definition registerFileHandlers :: "FileHandlerRegistry \<Rightarrow> world \<Rightarrow> world" where
  "registerFileHandlers registry w =
     w\<lparr>HANDLER_REGISTRY := assign (HANDLER_REGISTRY w) registry\<rparr>"

text \<open>
  \<open>HANDLER_REGISTRY\<close> is a plain object, so \<open>HANDLER_REGISTRY[mimetype]\<close> also finds
  the properties inherited from \<open>Object.prototype\<close>, all of them truthy. Those that
  are functions are called as factories, with no receiver: \<open>constructor\<close> answers the
  parameters object and \<open>toString\<close> a string, the others throw a TypeError;
  \<open>__proto__\<close> is the prototype object itself. None of the values found this way
  has a \<open>handleFile\<close> method.
\<close>

datatype inherited = Throws | NoHandler

definition object_prototype :: "(jsstring \<times> inherited) list" where
  "object_prototype =
     [(str ''constructor'', NoHandler),
      (str ''toString'', NoHandler),
      (str ''__proto__'', NoHandler),
      (str ''hasOwnProperty'', Throws),
      (str ''isPrototypeOf'', Throws),
      (str ''propertyIsEnumerable'', Throws),
      (str ''toLocaleString'', Throws),
      (str ''valueOf'', Throws),
      (str ''__defineGetter__'', Throws),
      (str ''__defineSetter__'', Throws),
      (str ''__lookupGetter__'', Throws),
      (str ''__lookupSetter__'', Throws)]"

text \<open>
  \<open>FileHandlerContext.setFileHandler(mimetype, params = {})\<close> and
  \<open>FileHandlerContext.handleFile\<close>.
\<close>

definition setFileHandler ::
  "jsstring \<Rightarrow> HandlerResolveParameters option \<Rightarrow> world \<Rightarrow> (error + unit) \<times> world" where
  "setFileHandler mt params w =
     (case map_of (HANDLER_REGISTRY w) mt of
        Some (Handler h) \<Rightarrow> (Inr (), w\<lparr>fileHandler := Some h\<rparr>)
      | Some (Factory f) \<Rightarrow> (Inr (), w\<lparr>fileHandler := Some (f (or_else params []))\<rparr>)
      | None \<Rightarrow>
          (case map_of object_prototype mt of
             None \<Rightarrow> (Inl (Error (str ''No file handler found for MIME type: '' @ mt)), w)
           | Some Throws \<Rightarrow> (Inl TypeError, w)
           | Some NoHandler \<Rightarrow> (Inr (), w\<lparr>fileHandler := Some NotAHandler\<rparr>)))"

definition handleFile :: "env \<Rightarrow> FileInfo \<Rightarrow> world \<Rightarrow> (error + handler_result) \<times> world" where
  "handleFile env fileInfo w =
     (case fileHandler w of
        None \<Rightarrow> (Inl (Error (str ''File handler not set'')), w)
      | Some h \<Rightarrow> FileHandler_handleFile env h fileInfo w)"

text \<open>
  The factories: each handler is built with the default text processor, which never
  throws.
\<close>

definition DefaultTextProcessor :: TextProcessor where
  "DefaultTextProcessor raw = Inr (processText raw)"

definition createTextFileHandler :: FileHandler where
  "createTextFileHandler = TextFileHandler DefaultTextProcessor"

definition createPdfFileHandler :: FileHandler where
  "createPdfFileHandler = PdfFileHandler DefaultTextProcessor"

definition createPdfPageFileHandler :: FileHandler where
  "createPdfPageFileHandler = PdfPageFileHandler DefaultTextProcessor"

text \<open>The registration made at start-up (index.ts).\<close>

definition startup_registry :: FileHandlerRegistry where
  "startup_registry =
     [(str ''text/plain'', Handler createTextFileHandler),
      (str ''application/pdf'', Handler createPdfPageFileHandler)]"

section \<open>Ingestion (RagDataIngestor)\<close>

record RagDataIngestor =
  chunker :: RecursiveChunker
  store :: ChromaVectorStore

text \<open>The inner loop \<open>for (const doc of docs)\<close>, pushing onto \<open>allChunks\<close>.\<close>

fun docs_loop ::
  "env \<Rightarrow> RecursiveChunker \<Rightarrow> FileInfo \<Rightarrow> Document list \<Rightarrow> Document list \<Rightarrow> world
     \<Rightarrow> (error + Document list) \<times> world" where
  "docs_loop env ck file [] allChunks w = (Inr allChunks, w)"
| "docs_loop env ck file (doc # docs) allChunks w =
     (case chunk env ck (content doc)
             (Some (assign [(str ''source'', VStr (originalname file)),
                            (str ''mimeType'', VStr (mimetype file))]
                           (or_else (Document.metadata doc) []))) w of
        (Inl e, w1) \<Rightarrow> (Inl e, w1)
      | (Inr chunks, w1) \<Rightarrow> docs_loop env ck file docs (allChunks @ chunks) w1)"

text \<open>The outer loop \<open>for (const file of files)\<close>.\<close>

fun files_loop ::
  "env \<Rightarrow> RecursiveChunker \<Rightarrow> HandlerResolveParameters option \<Rightarrow> FileInfo list
     \<Rightarrow> Document list \<Rightarrow> world \<Rightarrow> (error + Document list) \<times> world" where
  "files_loop env ck params [] allChunks w = (Inr allChunks, w)"
| "files_loop env ck params (file # files) allChunks w =
     (case setFileHandler (mimetype file) params w of
        (Inl e, w1) \<Rightarrow> (Inl e, w1)
      | (Inr _, w1) \<Rightarrow>
          (case handleFile env file w1 of
             (Inl e, w2) \<Rightarrow> (Inl e, w2)
           | (Inr result, w2) \<Rightarrow>
               (let docs = (case result of Many ds \<Rightarrow> ds | Single d \<Rightarrow> [d]) in
                case docs_loop env ck file docs allChunks w2 of
                  (Inl e, w3) \<Rightarrow> (Inl e, w3)
                | (Inr allChunks', w3) \<Rightarrow> files_loop env ck params files allChunks' w3)))"

text \<open>\<open>allChunks.map<UpsertItem>((chunk, index) => ...)\<close>.\<close>

definition upsertItems_of :: "Document list \<Rightarrow> vector list \<Rightarrow> UpsertItem list" where
  "upsertItems_of allChunks embeddings =
     map (\<lambda>(index, c).
            \<lparr>UpsertItem.id' = or_else (Document.id' c) [],
              embedding = nth_opt embeddings index,
              text' = content c,
              UpsertItem.metadata = Some (or_else (Document.metadata c) [])\<rparr>)
         (enumerate 0 allChunks)"

definition ingest ::
  "env \<Rightarrow> RagDataIngestor \<Rightarrow> FileInfo list \<Rightarrow> HandlerResolveParameters option \<Rightarrow> world
     \<Rightarrow> (error + unit) \<times> world" where
  "ingest env ing files params w =
     (if length files = 0 then (Inl (Error (str ''No files provided for ingestion'')), w)
      else
        (case files_loop env (chunker ing) params files [] w of
           (Inl e, w1) \<Rightarrow> (Inl e, w1)
         | (Inr allChunks, w1) \<Rightarrow>
             (case embed env (map content allChunks) w1 of
                (Inl e, w2) \<Rightarrow> (Inl e, w2)
              | (Inr embeddings, w2) \<Rightarrow>
                  upsert env (store ing) (upsertItems_of allChunks embeddings) w2)))"

section \<open>Query (RagOrchestrator)\<close>

record RagOrchestrator =
  langModel :: OllamaLangModel
  rag_store :: ChromaVectorStore

text \<open>\<open>x || d\<close> on a number: \<open>undefined\<close> and 0 both give \<open>d\<close>.\<close>

definition num_or :: "'a::zero option \<Rightarrow> 'a \<Rightarrow> 'a" where
  "num_or x d = (case x of None \<Rightarrow> d | Some v \<Rightarrow> if v = 0 then d else v)"

definition query ::
  "env \<Rightarrow> RagOrchestrator \<Rightarrow> jsstring \<Rightarrow> int \<Rightarrow> real option \<Rightarrow> int option \<Rightarrow> world
     \<Rightarrow> (error + jsstring) \<times> world" where
  "query env rag q topK threshold maxTok w =
     (case embed env [q] w of
        (Inl e, w1) \<Rightarrow> (Inl e, w1)
      | (Inr queryEmbedding, w1) \<Rightarrow>
          (case search env (rag_store rag) (nth_opt queryEmbedding 0) topK w1 of
             (Inl e, w2) \<Rightarrow> (Inl e, w2)
           | (Inr results, w2) \<Rightarrow>
               (let filteredResults =
                      filter (\<lambda>result. score result \<ge> num_or threshold 0) results
                in if length filteredResults = 0 then (Inr [], w2)
                   else generateResponse env (langModel rag)
                          \<lparr>question = q, maxTokens = Some (num_or maxTok 512),
                            sources = Some filteredResults\<rparr> w2)))"

section \<open>Observing the trace\<close>

text \<open>
  The calls made to the generator, to the embedding provider and to the vector store's
  upsert, in order; parser events are the calls made to the PDF parser.
\<close>

definition generator_calls :: "event list \<Rightarrow> event list" where
  "generator_calls evs =
     filter (\<lambda>ev. case ev of GenerateResponse _ \<Rightarrow> True | OllamaChat _ \<Rightarrow> True | _ \<Rightarrow> False) evs"

definition embed_calls :: "event list \<Rightarrow> event list" where
  "embed_calls evs = filter (\<lambda>ev. case ev of EmbedCall _ \<Rightarrow> True | _ \<Rightarrow> False) evs"

definition upsert_calls :: "event list \<Rightarrow> event list" where
  "upsert_calls evs =
     filter (\<lambda>ev. case ev of CollectionUpsert _ _ _ _ \<Rightarrow> True | _ \<Rightarrow> False) evs"

fun parser_event :: "event \<Rightarrow> bool" where
  "parser_event ParserNew = True"
| "parser_event ParserGetInfo = True"
| "parser_event (ParserGetText p) = True"
| "parser_event ParserDestroy = True"
| "parser_event ev = False"

definition parser_only :: "world \<Rightarrow> world \<Rightarrow> bool" where
  "parser_only w w' = (\<exists>evs. trace w' = trace w @ evs \<and> list_all parser_event evs)"


text \<open>The metadata the per-page handler attaches to page \<open>p\<close> of \<open>n\<close>.\<close>

definition page_metadata :: "nat \<Rightarrow> nat \<Rightarrow> metadata" where
  "page_metadata p n = [(str ''page'', VNum (int p)), (str ''totalPages'', VNum (int n))]"

section \<open>A sample installation\<close>

text \<open>
  Concrete collaborators for the worked examples: an embedding provider answering one
  vector per text, a vector database accepting every call and answering three stored
  passages, a two-page PDF, and a splitter that answers the text as one chunk (none for
  the empty text).
\<close>

definition sample_env :: env where
  "sample_env =
     \<lparr>embedding_embed = (\<lambda>h texts. Inr (map (\<lambda>t. [real (sum_list t)]) texts)),
      getOrCreateCollection = (\<lambda>h name. None),
      collection_upsert = (\<lambda>h ids embs docs metas. None),
      collection_query = (\<lambda>h v k.
        Inr \<lparr>ids = [[str ''a'', str ''b'', str ''c'']],
             documents = [[Some (str ''Paris''), Some (str ''Rome''), Some (str ''Oslo'')]],
             metadatas = [[None, None, None]],
             distances = [[Some 0.5, Some 0.2, Some 0.8]]\<rparr>),
      ollama_chat = (\<lambda>h req. Inr (str ''ok'')),
      pdf_getInfo = (\<lambda>h buf. Inr 2),
      pdf_getText = (\<lambda>h buf p. Inr (if p = Some 1 then str ''One.'' else str ''Two.'')),
      splitText = (\<lambda>sz ov t. Inr (if t = [] then [] else [t])),
      uuid_v4 = number_toString,
      utf8_decode = (\<lambda>b. b)\<rparr>"

text \<open>The same installation with a PDF parser whose text extraction rejects.\<close>

definition failing_parser_env :: env where
  "failing_parser_env = sample_env\<lparr>pdf_getText := (\<lambda>h buf p. Inl (Rejected 1))\<rparr>"

text \<open>The same installation with a PDF parser that rejects the document at once.\<close>

definition corrupt_pdf_env :: env where
  "corrupt_pdf_env = sample_env\<lparr>pdf_getInfo := (\<lambda>h buf. Inl (Rejected 2))\<rparr>"

text \<open>
  The same installation with a database that rejects an empty vector, as a collection
  of fixed dimension does.
\<close>

definition strict_db_env :: env where
  "strict_db_env =
     sample_env\<lparr>collection_upsert :=
       (\<lambda>h ids embs docs metas.
          if list_ex (\<lambda>e. e = []) embs then Some (Rejected 3) else None)\<rparr>"

text \<open>A store instance, an item without an embedding and an item with one.\<close>

definition sample_store :: ChromaVectorStore where
  "sample_store = \<lparr>ref = 0, collectionName = str ''docs''\<rparr>"

definition bare_item :: UpsertItem where
  "bare_item =
     \<lparr>UpsertItem.id' = str ''x'', embedding = None, text' = str ''t'',
      UpsertItem.metadata = None\<rparr>"

definition full_item :: UpsertItem where
  "full_item =
     \<lparr>UpsertItem.id' = str ''y'', embedding = Some [1], text' = str ''u'',
      UpsertItem.metadata = Some [(str ''page'', VNum 1)]\<rparr>"

definition sample_world :: world where
  "sample_world =
     registerFileHandlers startup_registry
       \<lparr>trace = [], cache = [], uuids = 0, open_parsers = 0, HANDLER_REGISTRY = [],
        fileHandler = None\<rparr>"

definition sample_ingestor :: RagDataIngestor where
  "sample_ingestor =
     \<lparr>chunker = \<lparr>options = \<lparr>chunkSize = 1000, overlap = Some 0\<rparr>\<rparr>,
      store = \<lparr>ref = 0, collectionName = str ''docs''\<rparr>\<rparr>"

definition sample_orchestrator :: RagOrchestrator where
  "sample_orchestrator =
     \<lparr>langModel = \<lparr>model = str ''llama2'', host = str ''http://localhost:11434''\<rparr>,
      rag_store = \<lparr>ref = 1, collectionName = str ''docs''\<rparr>\<rparr>"

definition empty_text_file :: FileInfo where
  "empty_text_file =
     \<lparr>originalname = str ''empty.txt'', size' = 0, mimetype = str ''text/plain'',
      encoding = str ''7bit'', buffer = []\<rparr>"

definition sample_pdf_file :: FileInfo where
  "sample_pdf_file =
     \<lparr>originalname = str ''two.pdf'', size' = 4, mimetype = str ''application/pdf'',
      encoding = str ''7bit'', buffer = [37, 80, 68, 70]\<rparr>"

text \<open>The chunks the two-page PDF yields, and the passages the database answers.\<close>

definition sample_chunk_metadata :: "nat \<Rightarrow> metadata" where
  "sample_chunk_metadata p =
     [(str ''source'', VStr (str ''two.pdf'')),
      (str ''mimeType'', VStr (str ''application/pdf'')),
      (str ''page'', VNum (int p)), (str ''totalPages'', VNum 2),
      (str ''chunk'', VNum 0), (str ''totalChunks'', VNum 1)]"

definition sample_chunk :: "nat \<Rightarrow> jsstring \<Rightarrow> Document" where
  "sample_chunk p txt =
     \<lparr>Document.id' = Some (str ''chunk-'' @ number_toString (p - 1)), content = txt,
      Document.metadata = Some (sample_chunk_metadata p)\<rparr>"

definition sample_result :: "string \<Rightarrow> string \<Rightarrow> real \<Rightarrow> SearchResult" where
  "sample_result i c sc =
     \<lparr>Document.id' = Some (str i), content = str c, Document.metadata = Some [], score = sc\<rparr>"

definition sample_results :: "SearchResult list" where
  "sample_results =
     [sample_result ''a'' ''Paris'' 0.5, sample_result ''b'' ''Rome'' 0.2,
      sample_result ''c'' ''Oslo'' 0.8]"

definition sample_context :: "SearchResult PromptContext" where
  "sample_context =
     \<lparr>question = str ''capital?'', maxTokens = Some 512,
      sources = Some [sample_result ''a'' ''Paris'' 0.5, sample_result ''c'' ''Oslo'' 0.8]\<rparr>"

section \<open>The fuel of the quantifier\<close>

text \<open>
  Every matcher built by \<open>run\<close> moves forward, so the fuel \<open>run\<close> hands to a
  quantifier is never used up: any larger amount gives the same matches.
\<close>

lemma forwardD:
  "forward n m \<Longrightarrow> y \<in> set (m x) \<Longrightarrow> fst x \<le> n \<Longrightarrow> fst x \<le> fst y \<and> fst y \<le> n"
  unfolding forward_def by blast

lemma forwardI:
  "(\<And>x y. y \<in> set (m x) \<Longrightarrow> fst x \<le> n \<Longrightarrow> fst x \<le> fst y \<and> fst y \<le> n) \<Longrightarrow> forward n m"
  unfolding forward_def by blast

lemma rep_forward:
  assumes "forward n m"
  shows "y \<in> set (rep m gs greedy fuel mn mx x) \<Longrightarrow> fst x \<le> n \<Longrightarrow> fst x \<le> fst y \<and> fst y \<le> n"
proof (induction fuel arbitrary: mn mx x)
  case 0
  then show ?case by simp
next
  case (Suc fuel)
  let ?x' = "(fst x, filter (\<lambda>(k, _). k \<notin> set gs) (snd x))"
  show ?case
  proof (cases "mx = Some 0")
    case True
    with Suc.prems show ?thesis by simp
  next
    case False
    from Suc.prems(1) False
    consider "y = x"
      | z where "z \<in> set (m ?x')" "y \<in> set (rep m gs greedy fuel (mn - 1) (map_option (\<lambda>k. k - 1) mx) z)"
      by (auto simp: Let_def split: if_splits)
    then show ?thesis
    proof cases
      case 1
      with Suc.prems show ?thesis by simp
    next
      case (2 z)
      from forwardD[OF assms 2(1)] Suc.prems(2) have z: "fst x \<le> fst z" "fst z \<le> n"
        by simp_all
      from Suc.IH[OF 2(2) z(2)] z show ?thesis by simp
    qed
  qed
qed

lemma run_forward: "forward (length s) (run f s r)"
proof (induction r)
  case (Seq a b)
  show ?case
  proof (rule forwardI)
    fix x y assume "y \<in> set (run f s (Seq a b) x)" and x: "fst x \<le> length s"
    then obtain z where z: "z \<in> set (run f s a x)" and y: "y \<in> set (run f s b z)" by auto
    from forwardD[OF Seq.IH(1) z x] forwardD[OF Seq.IH(2) y]
    show "fst x \<le> fst y \<and> fst y \<le> length s" by simp
  qed
next
  case (Alt a b)
  show ?case
  proof (rule forwardI)
    fix x y assume "y \<in> set (run f s (Alt a b) x)" and x: "fst x \<le> length s"
    then have "y \<in> set (run f s a x) \<or> y \<in> set (run f s b x)" by simp
    with forwardD[OF Alt.IH(1) _ x] forwardD[OF Alt.IH(2) _ x]
    show "fst x \<le> fst y \<and> fst y \<le> length s" by blast
  qed
next
  case (Rep mn mx greedy r)
  show ?case
  proof (rule forwardI)
    fix x y assume "y \<in> set (run f s (Rep mn mx greedy r) x)" and x: "fst x \<le> length s"
    then have "y \<in> set (rep (run f s r) (groups_of r) greedy (Suc (mn + (length s - fst x)))
                           mn mx x)"
      by (simp del: rep.simps)
    from rep_forward[OF Rep.IH this x]
    show "fst x \<le> fst y \<and> fst y \<le> length s" .
  qed
next
  case (Group k r)
  show ?case
  proof (rule forwardI)
    fix x y assume "y \<in> set (run f s (Group k r) x)" and x: "fst x \<le> length s"
    then obtain z where z: "z \<in> set (run f s r x)" and y: "fst y = fst z" by auto
    from forwardD[OF Group.IH z x] y
    show "fst x \<le> fst y \<and> fst y \<le> length s" by simp
  qed
next
  case (Backref k)
  show ?case
    by (rule forwardI) (auto split: option.splits if_splits)
next
  case (Ahead positive r)
  show ?case
    by (rule forwardI) (auto split: list.splits if_splits)
qed (auto intro!: forwardI split: if_splits)

lemma rep_fuel:
  assumes "forward n m"
  shows "fst x \<le> n \<Longrightarrow> mn + (n - fst x) < fuel1 \<Longrightarrow> mn + (n - fst x) < fuel2 \<Longrightarrow>
         rep m gs greedy fuel1 mn mx x = rep m gs greedy fuel2 mn mx x"
proof (induction fuel1 arbitrary: fuel2 mn mx x)
  case 0
  then show ?case by simp
next
  case (Suc k1)
  then obtain k2 where k2: "fuel2 = Suc k2" by (cases fuel2) auto
  let ?x' = "(fst x, filter (\<lambda>(k, _). k \<notin> set gs) (snd x))"
  have "(if mn = 0 \<and> fst y = fst x then []
         else rep m gs greedy k1 (mn - 1) (map_option (\<lambda>k. k - 1) mx) y)
      = (if mn = 0 \<and> fst y = fst x then []
         else rep m gs greedy k2 (mn - 1) (map_option (\<lambda>k. k - 1) mx) y)"
    if y: "y \<in> set (m ?x')" for y
  proof (cases "mn = 0 \<and> fst y = fst x")
    case True
    then show ?thesis by simp
  next
    case False
    from forwardD[OF assms y] Suc.prems(1) have b: "fst x \<le> fst y" "fst y \<le> n"
      by simp_all
    from False b Suc.prems(2,3) k2
    have "mn - 1 + (n - fst y) < k1" "mn - 1 + (n - fst y) < k2" by auto
    from Suc.IH[OF b(2) this]
    have "rep m gs greedy k1 (mn - 1) (map_option (\<lambda>k. k - 1) mx) y
            = rep m gs greedy k2 (mn - 1) (map_option (\<lambda>k. k - 1) mx) y" .
    then show ?thesis unfolding if_not_P[OF False] .
  qed
  then show ?case
    by (simp add: k2 Let_def cong: map_cong)
qed

lemma run_Rep_fuel:
  assumes "fst x \<le> length s"
  shows "run f s (Rep mn mx greedy r) x =
           rep (run f s r) (groups_of r) greedy (Suc (mn + (length s - fst x)) + extra) mn mx x"
  using rep_fuel[OF run_forward[of s f r] assms, of mn "Suc (mn + (length s - fst x))"
          "Suc (mn + (length s - fst x)) + extra" "groups_of r" greedy mx]
  by simp

section \<open>Evaluating the regular expressions\<close>

text \<open>
  The simplifier runs the matcher on a concrete string with these equations; a numeral
  of fuel is opened one step at a time.
\<close>

lemma rep_numeral:
  "rep m gs greedy (numeral k) mn mx x =
     (if mx = Some 0 then [x]
      else
        (let iter = concat (map (\<lambda>y. if mn = 0 \<and> fst y = fst x then []
                                       else rep m gs greedy (pred_numeral k) (mn - 1)
                                              (map_option (\<lambda>k. k - 1) mx) y)
                                (m (fst x, filter (\<lambda>(n, _). n \<notin> set gs) (snd x))))
         in if mn \<noteq> 0 then iter
            else if greedy then iter @ [x]
            else x # iter))"
  using rep.simps(2)[of m gs greedy "pred_numeral k" mn mx x] by (simp only: numeral_eq_Suc)

lemmas regex_eval =
  str_def is_space_def is_line_terminator_def in_class_def upper_def lower_def same_text_def
  char_item_def lit_def cat_def many_def many1_def lazy_many1_def optional_def at_least_def
  ws_def digit_def lf_def dash_def period_def flags_gm_def flags_gim_def flags_g_def
  replace_def Let_def upt_rec rep_numeral

text \<open>The passes as one composition, so that each is run on the result of the one before.\<close>

lemma processText_passes:
  "processText raw =
     (if raw = [] then []
      else trim (preserveSectionSpacing (removeDuplicateParagraphs (removeDuplicateLines
             (normalizeParagraphs (fixLineBreaks (removeHeadersFooters
               (removeLeaderDotLinesSafe (cleanNumberedToc (cleanTocLeaders
                 (removePageNumbers raw)))))))))))"
  by (simp only: processText_def Let_def)

lemma removePageNumbers_passes:
  "removePageNumbers txt =
     replace flags_gm
       (cat [Bol, many ws, at_least 1 dash, many ws, many1 digit, many ws,
             at_least 1 dash, many ws, Eol]) []
       (replace flags_gm
          (cat [Bol, many ws, at_least 1 dash, many ws, many1 digit, many1 ws,
                lit ''of'', many1 ws, many1 digit, many ws, at_least 1 dash, many ws,
                Eol]) []
          (replace flags_gm
             (cat [Bol, many ws, many1 digit,
                   optional (Group 1 (cat [many1 ws, lit ''of'', many1 ws, many1 digit])),
                   many ws, Eol]) []
             (replace flags_gim
                (cat [Bol, many ws, lit ''Page'', many1 ws, many1 digit,
                      optional (Group 1 (cat [many1 ws, lit ''of'', many1 ws, many1 digit])),
                      many ws, Eol]) [] txt)))"
  by (simp only: removePageNumbers_def Let_def)

lemmas passes =
  processText_passes removePageNumbers_passes cleanTocLeaders_def cleanNumberedToc_def
  removeLeaderDotLinesSafe_def removeHeadersFooters_def fixLineBreaks_def
  normalizeParagraphs_def removeDuplicateLines_def removeDuplicateParagraphs_def
  preserveSectionSpacing_def trim_def

text \<open>
  The sample installation is run by unfolding the components; the text processor is
  run apart, on the two page texts.
\<close>

lemma processText_One: "processText (str ''One.'') = str ''One.''"
  by (simp add: passes regex_eval)

lemma processText_Two: "processText (str ''Two.'') = str ''Two.''"
  by (simp add: passes regex_eval)

lemmas sample_defs =
  sample_env_def sample_world_def sample_ingestor_def sample_orchestrator_def
  empty_text_file_def sample_pdf_file_def failing_parser_env_def corrupt_pdf_env_def
  strict_db_env_def sample_store_def bare_item_def full_item_def startup_registry_def
  registerFileHandlers_def assign_def createTextFileHandler_def createPdfFileHandler_def
  createPdfPageFileHandler_def DefaultTextProcessor_def

lemmas pipeline_defs =
  ingest_def setFileHandler_def handleFile_def one_def TextFileHandler_handleFile_def
  PdfFileHandler_handleFile_def PdfPageFileHandler_handleFile_def pages_loop.simps
  parser_new_def parser_destroy_def emit_def chunk_def createChunk_def embed_def upsert_def
  getCollection_def upsertItems_of_def nth_opt_def or_else_def at_or_def search_def query_def
  generateResponse_def num_or_def Let_def

lemmas sample_texts =
  processText_One[unfolded str_def, simplified] processText_Two[unfolded str_def, simplified]

text \<open>A list of length two is its two elements.\<close>

lemma list_two: "length xs = 2 \<Longrightarrow> xs ! 0 = a \<Longrightarrow> xs ! 1 = b \<Longrightarrow> xs = [a, b]"
  by (auto simp: numeral_2_eq_2 length_Suc_conv)

section \<open>Traces of the components\<close>

lemma getCollection_result:
  "getCollection env st w = (r, w1) \<Longrightarrow>
     trace w1 = trace w \<or> trace w1 = trace w @ [GetOrCreateCollection (collectionName st)]"
  by (auto simp: getCollection_def emit_def split: if_splits option.splits)

lemma generator_calls_embed:
  "embed env texts w = (r, w1) \<Longrightarrow> generator_calls (trace w1) = generator_calls (trace w)"
  by (auto simp: embed_def emit_def generator_calls_def)

lemma generator_calls_getCollection:
  "getCollection env st w = (r, w1) \<Longrightarrow> generator_calls (trace w1) = generator_calls (trace w)"
  by (auto simp: getCollection_def emit_def generator_calls_def split: if_splits option.splits)

lemma generator_calls_search:
  "search env st v k w = (r, w1) \<Longrightarrow> generator_calls (trace w1) = generator_calls (trace w)"
  unfolding search_def
  by (auto simp: emit_def generator_calls_def Let_def
      dest!: generator_calls_getCollection[unfolded generator_calls_def]
      split: prod.splits sum.splits option.splits if_splits)

lemma parser_only_refl: "parser_only w w"
  by (simp add: parser_only_def)

lemma parser_only_trans: "parser_only w w1 \<Longrightarrow> parser_only w1 w2 \<Longrightarrow> parser_only w w2"
  by (auto simp: parser_only_def)

lemma parser_only_emit: "parser_event ev \<Longrightarrow> parser_only w (emit ev w)"
  by (simp add: parser_only_def emit_def)

lemma parser_only_same_trace: "trace w' = trace w \<Longrightarrow> parser_only w w'"
  by (simp add: parser_only_def)

lemma createChunks_trace: "createChunks env md n i cs w = (ds, w') \<Longrightarrow> trace w' = trace w"
  by (induction cs arbitrary: i w ds w')
     (auto simp: createChunk_def split: prod.splits)

lemma chunk_trace: "chunk env ck txt md w = (r, w') \<Longrightarrow> trace w' = trace w"
  by (auto simp: chunk_def split: sum.splits prod.splits dest: createChunks_trace)

lemma docs_loop_trace:
  "docs_loop env ck file docs acc w = (r, w') \<Longrightarrow> trace w' = trace w"
proof (induction docs arbitrary: acc w)
  case Nil
  then show ?case by simp
next
  case (Cons d docs)
  then show ?case
    by (auto split: prod.splits sum.splits dest!: chunk_trace)
qed

lemma pages_loop_parser_only:
  "pages_loop env tp buf n i docs w = (r, w') \<Longrightarrow> parser_only w w'"
proof (induction env tp buf n i docs w rule: pages_loop.induct)
  case (1 env tp buf n i docs w)
  show ?case
  proof (cases "i < n")
    case False
    with "1.prems" show ?thesis
      by (subst (asm) pages_loop.simps) (simp add: parser_only_refl)
  next
    case True
    let ?w1 = "emit (ParserGetText (Some (i + 1))) w"
    have e: "parser_only w ?w1" by (simp add: parser_only_emit)
    show ?thesis
    proof (cases "pdf_getText env (trace w) buf (Some (i + 1))")
      case (Inl err)
      with True "1.prems" e show ?thesis
        by (subst (asm) pages_loop.simps) (auto simp: Let_def)
    next
      case (Inr rawText)
      show ?thesis
      proof (cases "tp rawText")
        case (Inl err)
        with True Inr "1.prems" e show ?thesis
          by (subst (asm) pages_loop.simps) (auto simp: Let_def)
      next
        case r: (Inr finalText)
        from True Inr r "1.prems"
        have "pages_loop env tp buf n (i + 1)
                (docs @ [\<lparr>Document.id' = None, content = finalText,
                           Document.metadata = Some [(str ''page'', VNum (int (i + 1))),
                                                      (str ''totalPages'', VNum (int n))]\<rparr>])
                ?w1 = (r, w')"
          by (subst (asm) pages_loop.simps) (simp add: Let_def)
        from "1.IH"[OF True refl Inr r this] e show ?thesis
          by (rule parser_only_trans[rotated])
      qed
    qed
  qed
qed

lemma PdfPage_parser_only:
  assumes "PdfPageFileHandler_handleFile env tp file w = (r, w')"
  shows "parser_only w w'"
proof -
  let ?w1 = "emit ParserGetInfo (parser_new w)"
  have w1: "parser_only w ?w1"
    by (simp add: parser_only_def parser_new_def emit_def)
  have d: "\<And>v. parser_only v (parser_destroy v)"
    by (simp add: parser_only_def parser_destroy_def emit_def)
  show ?thesis
  proof (cases "pdf_getInfo env (trace (parser_new w)) (buffer file)")
    case (Inl e)
    with assms w1 show ?thesis
      by (auto simp: PdfPageFileHandler_handleFile_def Let_def)
  next
    case (Inr n)
    obtain r2 w2 where p: "pages_loop env tp (buffer file) n 0 [] ?w1 = (r2, w2)"
      by (cases "pages_loop env tp (buffer file) n 0 [] ?w1") auto
    from pages_loop_parser_only[OF p] w1 have w2: "parser_only w w2"
      by (rule parser_only_trans[rotated])
    from assms Inr p have "w' = w2 \<or> w' = parser_destroy w2"
      by (auto simp: PdfPageFileHandler_handleFile_def Let_def split: sum.splits)
    with w2 d[of w2] show ?thesis
      by (auto intro: parser_only_trans)
  qed
qed

lemma handleFile_parser_only:
  "handleFile env file w = (r, w') \<Longrightarrow> parser_only w w'"
proof (cases "fileHandler w")
  case None
  assume "handleFile env file w = (r, w')"
  with None show ?thesis by (auto simp: handleFile_def parser_only_refl)
next
  case (Some h)
  assume a: "handleFile env file w = (r, w')"
  have n: "parser_only w (parser_new w)"
    by (simp add: parser_only_def parser_new_def emit_def)
  have d: "\<And>v. parser_only v (parser_destroy v)"
    by (simp add: parser_only_def parser_destroy_def emit_def)
  have g: "\<And>v ev. parser_event ev \<Longrightarrow> parser_only v (emit ev v)"
    by (rule parser_only_emit)
  show ?thesis
  proof (cases h)
    case (TextFileHandler tp)
    with a Some show ?thesis
      by (auto simp: handleFile_def one_def TextFileHandler_handleFile_def Let_def
               parser_only_refl split: sum.splits prod.splits)
  next
    case (PdfFileHandler tp)
    with a Some show ?thesis
      by (auto simp: handleFile_def one_def PdfFileHandler_handleFile_def Let_def
               parser_only_def parser_new_def parser_destroy_def emit_def
               split: sum.splits prod.splits)
  next
    case (PdfPageFileHandler tp)
    with a Some show ?thesis
      by (auto simp: handleFile_def split: prod.splits sum.splits dest: PdfPage_parser_only)
  next
    case NoopFileHandler
    with a Some show ?thesis
      by (auto simp: handleFile_def one_def NoopFileHandler_handleFile_def parser_only_refl)
  next
    case NotAHandler
    with a Some show ?thesis
      by (auto simp: handleFile_def parser_only_refl)
  qed
qed

lemma setFileHandler_trace: "setFileHandler mt params w = (r, w') \<Longrightarrow> trace w' = trace w"
  by (auto simp: setFileHandler_def split: option.splits registry_entry.splits inherited.splits)

lemma files_loop_parser_only:
  "files_loop env ck params files acc w = (r, w') \<Longrightarrow> parser_only w w'"
proof (induction files arbitrary: acc w)
  case Nil
  then show ?case by (simp add: parser_only_refl)
next
  case (Cons f fs)
  obtain r1 w1 where s: "setFileHandler (mimetype f) params w = (r1, w1)"
    by (cases "setFileHandler (mimetype f) params w") auto
  have p1: "parser_only w w1"
    using setFileHandler_trace[OF s] by (rule parser_only_same_trace)
  show ?case
  proof (cases r1)
    case (Inl e)
    with Cons.prems s p1 show ?thesis by simp
  next
    case (Inr u)
    obtain r2 w2 where h: "handleFile env f w1 = (r2, w2)"
      by (cases "handleFile env f w1") auto
    have p2: "parser_only w w2"
      using p1 handleFile_parser_only[OF h] by (rule parser_only_trans)
    show ?thesis
    proof (cases r2)
      case (Inl e)
      with Cons.prems s Inr h p2 show ?thesis by simp
    next
      case r2: (Inr result)
      let ?docs = "case result of Many ds \<Rightarrow> ds | Single d \<Rightarrow> [d]"
      obtain r3 w3 where d: "docs_loop env ck f ?docs acc w2 = (r3, w3)"
        by (cases "docs_loop env ck f ?docs acc w2") auto
      have p3: "parser_only w w3"
        using p2 parser_only_same_trace[OF docs_loop_trace[OF d]] by (rule parser_only_trans)
      show ?thesis
      proof (cases r3)
        case (Inl e)
        with Cons.prems s Inr h r2 d p3 show ?thesis by (simp add: Let_def)
      next
        case r3: (Inr acc')
        with Cons.prems s Inr h r2 d
        have "files_loop env ck params fs acc' w3 = (r, w')" by (simp add: Let_def)
        from Cons.IH[OF this] p3 show ?thesis by (rule parser_only_trans[rotated])
      qed
    qed
  qed
qed

lemma parser_only_embed_calls: "parser_only w w' \<Longrightarrow> embed_calls (trace w') = embed_calls (trace w)"
  unfolding parser_only_def embed_calls_def
proof -
  assume "\<exists>evs. trace w' = trace w @ evs \<and> list_all parser_event evs"
  then obtain evs where t: "trace w' = trace w @ evs" and p: "list_all parser_event evs" by blast
  have "filter (\<lambda>ev. case ev of EmbedCall _ \<Rightarrow> True | _ \<Rightarrow> False) evs = []"
    using p by (induction evs) (auto split: event.splits)
  with t show "filter (\<lambda>ev. case ev of EmbedCall _ \<Rightarrow> True | _ \<Rightarrow> False) (trace w') =
               filter (\<lambda>ev. case ev of EmbedCall _ \<Rightarrow> True | _ \<Rightarrow> False) (trace w)"
    by simp
qed

lemma parser_only_upsert_calls: "parser_only w w' \<Longrightarrow> upsert_calls (trace w') = upsert_calls (trace w)"
  unfolding parser_only_def upsert_calls_def
proof -
  assume "\<exists>evs. trace w' = trace w @ evs \<and> list_all parser_event evs"
  then obtain evs where t: "trace w' = trace w @ evs" and p: "list_all parser_event evs" by blast
  have "filter (\<lambda>ev. case ev of CollectionUpsert _ _ _ _ \<Rightarrow> True | _ \<Rightarrow> False) evs = []"
    using p by (induction evs) (auto split: event.splits)
  with t show "filter (\<lambda>ev. case ev of CollectionUpsert _ _ _ _ \<Rightarrow> True | _ \<Rightarrow> False) (trace w') =
               filter (\<lambda>ev. case ev of CollectionUpsert _ _ _ _ \<Rightarrow> True | _ \<Rightarrow> False) (trace w)"
    by simp
qed

lemma getCollection_calls:
  "getCollection env st w = (r, w') \<Longrightarrow>
     embed_calls (trace w') = embed_calls (trace w) \<and> upsert_calls (trace w') = upsert_calls (trace w)"
  by (auto simp: getCollection_def emit_def embed_calls_def upsert_calls_def
           split: if_splits option.splits)

lemma upsert_embed_calls:
  "upsert env st items w = (r, w') \<Longrightarrow> embed_calls (trace w') = embed_calls (trace w)"
  by (auto simp: upsert_def Let_def emit_def embed_calls_def
           split: prod.splits sum.splits dest!: getCollection_calls[unfolded embed_calls_def upsert_calls_def])

lemma upsertItems_of_arrays:
  "map UpsertItem.id' (upsertItems_of cs es) = map (\<lambda>c. or_else (Document.id' c) []) cs"
  "map (\<lambda>item. or_else (embedding item) []) (upsertItems_of cs es) =
     map (\<lambda>i. if i < length es then es ! i else []) [0..<length cs]"
  "map text' (upsertItems_of cs es) = map content cs"
  "map (\<lambda>item. or_else (UpsertItem.metadata item) []) (upsertItems_of cs es) =
     map (\<lambda>c. or_else (Document.metadata c) []) cs"
  by (auto simp: upsertItems_of_def nth_opt_def or_else_def nth_enumerate_eq
           intro!: nth_equalityI)

section \<open>Chunker construction\<close>

text \<open>
  C9. With both \<open>chunkSize\<close> and \<open>overlap\<close> given, constructing the recursive chunker
  throws \<open>Error('Overlap must be smaller than chunk size.')\<close> exactly when
  \<open>overlap \<ge> chunkSize\<close>; when \<open>overlap < chunkSize\<close> it returns a chunker holding
  the two options.
\<close>

theorem chunker_construction:
  assumes "overlap opts = Some ov"
  shows "(chunkSize opts \<le> ov \<longrightarrow>
            RecursiveChunker_new opts =
              Inl (Error (str ''Overlap must be smaller than chunk size.'')))
       \<and> (ov < chunkSize opts \<longrightarrow>
            RecursiveChunker_new opts =
              Inr \<lparr>options = \<lparr>chunkSize = chunkSize opts, overlap = Some ov\<rparr>\<rparr>)"
  using assms
  by (simp add: RecursiveChunker_new_def assertChunkSizeGreaterThanOverlap_def)

theorem chunker_construction_witness:
  "RecursiveChunker_new \<lparr>chunkSize = 5, overlap = Some 5\<rparr> =
     Inl (Error (str ''Overlap must be smaller than chunk size.''))
   \<and> RecursiveChunker_new \<lparr>chunkSize = 10, overlap = Some 2\<rparr> =
     Inr \<lparr>options = \<lparr>chunkSize = 10, overlap = Some 2\<rparr>\<rparr>"
  using chunker_construction [of "\<lparr>chunkSize = 5, overlap = Some 5\<rparr>" 5]
        chunker_construction [of "\<lparr>chunkSize = 10, overlap = Some 2\<rparr>" 2]
  by simp

section \<open>Ingestion\<close>

text \<open>
  C6. Calling \<open>ingest\<close> with an empty file list throws
  \<open>Error('No files provided for ingestion')\<close> at once: the world comes back as it
  was, so no handler, no embedding provider and no vector store has been called, and
  nothing has been stored.
\<close>

theorem ingest_empty_file_list:
  "ingest env ing [] params w = (Inl (Error (str ''No files provided for ingestion'')), w)"
  by (simp add: ingest_def)

text \<open>
  C2. When the files have been read and chunked into \<open>allChunks\<close>, the embedding
  provider answers \<open>embeddings\<close> and the collection is available, ingestion makes one
  embedding call, over the texts of all chunks in order, and one upsert call whose four
  arrays have the length of \<open>allChunks\<close>; at each index they hold the id, the text
  and the metadata of the chunk at that index and the vector the provider returned at
  that index (the empty vector where the provider returned fewer vectors).
\<close>

theorem ingest_alignment:
  assumes "files \<noteq> []"
      and "files_loop env (chunker ing) params files [] w = (Inr allChunks, w1)"
      and "embedding_embed env (trace w1) (map content allChunks) = Inr embeddings"
      and "getCollection env (store ing) (emit (EmbedCall (map content allChunks)) w1)
             = (Inr (), w3)"
      and "w' = snd (ingest env ing files params w)"
  shows "embed_calls (trace w') = embed_calls (trace w) @ [EmbedCall (map content allChunks)]
       \<and> (\<exists>ids embs docs metas.
            upsert_calls (trace w') = upsert_calls (trace w) @ [CollectionUpsert ids embs docs metas]
          \<and> length ids = length allChunks \<and> length embs = length allChunks
          \<and> length docs = length allChunks \<and> length metas = length allChunks
          \<and> (\<forall>i < length allChunks.
                 ids ! i = or_else (Document.id' (allChunks ! i)) []
               \<and> docs ! i = content (allChunks ! i)
               \<and> metas ! i = or_else (Document.metadata (allChunks ! i)) []
               \<and> embs ! i = (if i < length embeddings then embeddings ! i else [])))"
proof -
  let ?w2 = "emit (EmbedCall (map content allChunks)) w1"
  let ?ids = "map (\<lambda>c. or_else (Document.id' c) []) allChunks"
  let ?embs = "map (\<lambda>i. if i < length embeddings then embeddings ! i else []) [0..<length allChunks]"
  let ?docs = "map content allChunks"
  let ?metas = "map (\<lambda>c. or_else (Document.metadata c) []) allChunks"
  have p: "parser_only w w1" using files_loop_parser_only[OF assms(2)] .
  have w': "w' = emit (CollectionUpsert ?ids ?embs ?docs ?metas) w3"
    using assms
    by (simp add: ingest_def embed_def upsert_def Let_def upsertItems_of_arrays)
  have c3: "embed_calls (trace w3) = embed_calls (trace ?w2)"
           "upsert_calls (trace w3) = upsert_calls (trace ?w2)"
    using getCollection_calls[OF assms(4)] by simp_all
  have e: "embed_calls (trace w') = embed_calls (trace w) @ [EmbedCall ?docs]"
    using w' c3 parser_only_embed_calls[OF p] by (simp add: emit_def embed_calls_def)
  have u: "upsert_calls (trace w') =
             upsert_calls (trace w) @ [CollectionUpsert ?ids ?embs ?docs ?metas]"
    using w' c3 parser_only_upsert_calls[OF p] by (simp add: emit_def upsert_calls_def)
  show ?thesis
    apply (rule conjI[OF e])
    apply (rule exI[of _ ?ids], rule exI[of _ ?embs], rule exI[of _ ?docs], rule exI[of _ ?metas])
    using u by simp
qed

theorem ingest_alignment_witness:
  "upsert_calls (trace (snd (ingest sample_env sample_ingestor [sample_pdf_file] None sample_world)))
     = [CollectionUpsert [str ''chunk-0'', str ''chunk-1''] [[336], [360]]
          [str ''One.'', str ''Two.'']
          [sample_chunk_metadata 1,
           sample_chunk_metadata 2]]
   \<and> embed_calls (trace (snd (ingest sample_env sample_ingestor [sample_pdf_file] None sample_world)))
     = [EmbedCall [str ''One.'', str ''Two.'']]"
proof -
  let ?chunks = "[sample_chunk 1 (str ''One.''), sample_chunk 2 (str ''Two.'')]"
  define w1 where
    "w1 = snd (files_loop sample_env (chunker sample_ingestor) None [sample_pdf_file] [] sample_world)"
  define w3 where
    "w3 = snd (getCollection sample_env (store sample_ingestor)
                 (emit (EmbedCall (map content ?chunks)) w1))"
  have h1: "[sample_pdf_file] \<noteq> []" by simp
  have "fst (files_loop sample_env (chunker sample_ingestor) None [sample_pdf_file] [] sample_world)
          = Inr ?chunks"
    by (simp add: sample_defs pipeline_defs str_def sample_texts sample_chunk_def sample_chunk_metadata_def)
  then have h2: "files_loop sample_env (chunker sample_ingestor) None [sample_pdf_file] [] sample_world
          = (Inr ?chunks, w1)"
    by (simp add: w1_def prod_eq_iff)
  have h3: "embedding_embed sample_env (trace w1) (map content ?chunks) = Inr [[336], [360]]"
    by (simp add: sample_env_def sample_chunk_def sample_chunk_metadata_def str_def)
  have "fst (getCollection sample_env (store sample_ingestor)
                 (emit (EmbedCall (map content ?chunks)) w1)) = Inr ()"
    by (simp add: getCollection_def sample_env_def split: if_splits)
  then have h4: "getCollection sample_env (store sample_ingestor)
                 (emit (EmbedCall (map content ?chunks)) w1) = (Inr (), w3)"
    by (simp add: w3_def prod_eq_iff)
  have t: "trace sample_world = []"
    by (simp add: sample_world_def registerFileHandlers_def)
  let ?w' = "snd (ingest sample_env sample_ingestor [sample_pdf_file] None sample_world)"
  from ingest_alignment[OF h1 h2 h3 h4 refl]
  obtain ids embs docs metas where
    e: "embed_calls (trace ?w') = embed_calls (trace sample_world) @ [EmbedCall (map content ?chunks)]"
    and u: "upsert_calls (trace ?w') =
              upsert_calls (trace sample_world) @ [CollectionUpsert ids embs docs metas]"
    and len: "length ids = length ?chunks" "length embs = length ?chunks"
             "length docs = length ?chunks" "length metas = length ?chunks"
    and nth: "\<forall>i < length ?chunks.
                 ids ! i = or_else (Document.id' (?chunks ! i)) []
               \<and> docs ! i = content (?chunks ! i)
               \<and> metas ! i = or_else (Document.metadata (?chunks ! i)) []
               \<and> embs ! i = (if i < length [[336], [360::real]] then [[336], [360]] ! i else [])"
    by blast
  from nth have n0:
      "ids ! 0 = str ''chunk-0''" "docs ! 0 = str ''One.''"
      "metas ! 0 = sample_chunk_metadata 1" "embs ! 0 = [336]"
    by (simp_all add: sample_chunk_def sample_chunk_metadata_def or_else_def str_def)
  from nth have n1:
      "ids ! 1 = str ''chunk-1''" "docs ! 1 = str ''Two.''"
      "metas ! 1 = sample_chunk_metadata 2" "embs ! 1 = [360]"
    by (simp_all add: sample_chunk_def sample_chunk_metadata_def or_else_def str_def)
  from len have l2: "length ids = 2" "length embs = 2" "length docs = 2" "length metas = 2"
    by simp_all
  have "ids = [str ''chunk-0'', str ''chunk-1'']" "embs = [[336], [360]]"
       "docs = [str ''One.'', str ''Two.'']"
       "metas = [sample_chunk_metadata 1,
                 sample_chunk_metadata 2]"
    using l2 n0 n1 by (simp_all add: list_two)
  with e u t show ?thesis
    by (simp add: embed_calls_def upsert_calls_def sample_chunk_def sample_chunk_metadata_def)
qed

text \<open>
  C3 as stated fails. A single empty text file is a non-empty file list that resolves
  to zero chunks, and ingesting it calls the embedding provider and the vector store.
\<close>

theorem ingest_zero_chunks_counterexample:
  "[empty_text_file] \<noteq> []
   \<and> fst (files_loop sample_env (chunker sample_ingestor) None [empty_text_file] [] sample_world)
       = Inr []
   \<and> trace (snd (ingest sample_env sample_ingestor [empty_text_file] None sample_world))
       = [EmbedCall [], GetOrCreateCollection (str ''docs''), CollectionUpsert [] [] [] []]"
  by (simp add: sample_defs pipeline_defs str_def processText_def)

text \<open>
  C3, as the code has it. When a non-empty file list resolves to zero chunks, ingestion
  still calls the embedding provider once, with the empty list of texts; and when that
  call succeeds and the collection is available it calls the vector store's upsert
  once, with four empty arrays.
\<close>

theorem ingest_zero_chunks:
  assumes "files \<noteq> []"
      and "files_loop env (chunker ing) params files [] w = (Inr [], w1)"
      and "w' = snd (ingest env ing files params w)"
  shows "embed_calls (trace w') = embed_calls (trace w) @ [EmbedCall []]
       \<and> (\<forall>embeddings w3.
             embedding_embed env (trace w1) [] = Inr embeddings
           \<and> getCollection env (store ing) (emit (EmbedCall []) w1) = (Inr (), w3)
           \<longrightarrow> upsert_calls (trace w') = upsert_calls (trace w) @ [CollectionUpsert [] [] [] []])"
proof -
  let ?w2 = "emit (EmbedCall []) w1"
  have p: "parser_only w w1" using files_loop_parser_only[OF assms(2)] .
  have e2: "embed_calls (trace ?w2) = embed_calls (trace w) @ [EmbedCall []]"
    using parser_only_embed_calls[OF p] by (simp add: emit_def embed_calls_def)
  have u2: "upsert_calls (trace ?w2) = upsert_calls (trace w)"
    using parser_only_upsert_calls[OF p] by (simp add: emit_def upsert_calls_def)
  have first: "embed_calls (trace w') = embed_calls (trace w) @ [EmbedCall []]"
  proof (cases "embedding_embed env (trace w1) []")
    case (Inl e)
    with assms have "w' = ?w2" by (simp add: ingest_def embed_def)
    with e2 show ?thesis by simp
  next
    case (Inr embeddings)
    with assms have "w' = snd (upsert env (store ing) [] ?w2)"
      by (simp add: ingest_def embed_def upsertItems_of_def)
    then have "embed_calls (trace w') = embed_calls (trace ?w2)"
      using upsert_embed_calls[of env "store ing" "[]" ?w2] by (simp add: prod_eq_iff)
    with e2 show ?thesis by simp
  qed
  have second: "upsert_calls (trace w') = upsert_calls (trace w) @ [CollectionUpsert [] [] [] []]"
    if a: "embedding_embed env (trace w1) [] = Inr embeddings"
       "getCollection env (store ing) ?w2 = (Inr (), w3)" for embeddings w3
  proof -
    have "w' = emit (CollectionUpsert [] [] [] []) w3"
      using assms a by (simp add: ingest_def embed_def upsert_def upsertItems_of_def)
    moreover have "upsert_calls (trace w3) = upsert_calls (trace ?w2)"
      using getCollection_calls[OF a(2)] by simp
    ultimately show ?thesis using u2 by (simp add: emit_def upsert_calls_def)
  qed
  from first second show ?thesis by blast
qed

theorem ingest_zero_chunks_witness:
  "embed_calls (trace (snd (ingest sample_env sample_ingestor [empty_text_file] None sample_world)))
     = [EmbedCall []]
   \<and> upsert_calls (trace (snd (ingest sample_env sample_ingestor [empty_text_file] None sample_world)))
     = [CollectionUpsert [] [] [] []]"
proof -
  define w1 where "w1 = sample_world\<lparr>fileHandler := Some createTextFileHandler\<rparr>"
  define w3 where "w3 = snd (getCollection sample_env (store sample_ingestor) (emit (EmbedCall []) w1))"
  have h1: "[empty_text_file] \<noteq> []" by simp
  have h2: "files_loop sample_env (chunker sample_ingestor) None [empty_text_file] [] sample_world
              = (Inr [], w1)"
    by (simp add: w1_def sample_defs pipeline_defs str_def processText_def)
  have h3: "embedding_embed sample_env (trace w1) [] = Inr []"
    by (simp add: sample_env_def)
  have "fst (getCollection sample_env (store sample_ingestor) (emit (EmbedCall []) w1)) = Inr ()"
    by (simp add: getCollection_def sample_env_def split: if_splits)
  then have h4: "getCollection sample_env (store sample_ingestor) (emit (EmbedCall []) w1)
                   = (Inr (), w3)"
    by (simp add: w3_def prod_eq_iff)
  have t: "trace sample_world = []"
    by (simp add: sample_world_def registerFileHandlers_def)
  from ingest_zero_chunks[OF h1 h2 refl] h3 h4 t show ?thesis
    by (simp add: embed_calls_def upsert_calls_def)
qed

section \<open>Vector store\<close>

text \<open>
  C10 as stated fails. Whether an absent embedding makes \<open>upsert\<close> fail is decided by
  the database: with a database that rejects an empty vector, the item without an
  embedding makes \<open>upsert\<close> fail, and the same item with an embedding is accepted.
\<close>

theorem upsert_absent_embedding_counterexample:
  "fst (getCollection strict_db_env sample_store sample_world) = Inr ()
   \<and> embedding bare_item = None
   \<and> fst (upsert strict_db_env sample_store [bare_item] sample_world) = Inl (Rejected 3)
   \<and> fst (upsert strict_db_env sample_store [bare_item\<lparr>embedding := Some [1]\<rparr>] sample_world)
       = Inr ()"
  by (simp add: sample_defs pipeline_defs)

text \<open>
  C10, as the code has it. \<open>upsert\<close> itself never rejects an item for its absent
  embedding: once the collection is available it hands the database one call with the
  id, the text and the metadata of every item, in the order of the items, and one
  vector per item, which is the item's embedding when it has one and the empty vector
  when it has none; \<open>upsert\<close> succeeds when the database accepts that payload and
  fails with the database's error when it rejects it.
\<close>

theorem upsert_absent_embedding:
  assumes "getCollection env st w = (Inr (), w1)"
      and "embs = map (\<lambda>item. case embedding item of None \<Rightarrow> [] | Some v \<Rightarrow> v) items"
      and "metas = map (\<lambda>item. case UpsertItem.metadata item of None \<Rightarrow> [] | Some m \<Rightarrow> m) items"
      and "answer = collection_upsert env (trace w1) (map UpsertItem.id' items) embs
                      (map text' items) metas"
  shows "snd (upsert env st items w)
           = emit (CollectionUpsert (map UpsertItem.id' items) embs (map text' items) metas) w1
       \<and> length embs = length items
       \<and> (\<forall>i < length items. embedding (items ! i) = None \<longrightarrow> embs ! i = [])
       \<and> (\<forall>i < length items. \<forall>v. embedding (items ! i) = Some v \<longrightarrow> embs ! i = v)
       \<and> (answer = None \<longrightarrow> fst (upsert env st items w) = Inr ())
       \<and> (\<forall>e. answer = Some e \<longrightarrow> fst (upsert env st items w) = Inl e)"
proof -
  have p: "snd (upsert env st items w)
             = emit (CollectionUpsert (map UpsertItem.id' items) embs (map text' items) metas) w1"
    using assms by (simp add: upsert_def Let_def or_else_def)
  have r: "fst (upsert env st items w) = (case answer of Some e \<Rightarrow> Inl e | None \<Rightarrow> Inr ())"
    using assms by (simp add: upsert_def Let_def or_else_def)
  have l: "length embs = length items" using assms(2) by simp
  have n: "\<forall>i < length items. embedding (items ! i) = None \<longrightarrow> embs ! i = []"
    using assms(2) by simp
  have v: "\<forall>i < length items. \<forall>v. embedding (items ! i) = Some v \<longrightarrow> embs ! i = v"
    using assms(2) by simp
  from p r l n v show ?thesis by simp
qed

theorem upsert_absent_embedding_witness:
  "fst (upsert sample_env sample_store [bare_item, full_item] sample_world) = Inr ()
   \<and> upsert_calls (trace (snd (upsert sample_env sample_store [bare_item, full_item]
                                  sample_world)))
       = [CollectionUpsert [str ''x'', str ''y''] [[], [1]] [str ''t'', str ''u'']
            [[], [(str ''page'', VNum 1)]]]
   \<and> fst (upsert strict_db_env sample_store [bare_item, full_item] sample_world)
       = Inl (Rejected 3)"
proof -
  let ?items = "[bare_item, full_item]"
  let ?embs = "[[], [1::real]]"
  let ?metas = "[[], [(str ''page'', VNum 1)]]"
  define w1 where "w1 = snd (getCollection sample_env sample_store sample_world)"
  define v1 where "v1 = snd (getCollection strict_db_env sample_store sample_world)"
  have "fst (getCollection sample_env sample_store sample_world) = Inr ()"
    by (simp add: getCollection_def sample_env_def split: if_splits)
  then have h1: "getCollection sample_env sample_store sample_world = (Inr (), w1)"
    by (simp add: w1_def prod_eq_iff)
  have "fst (getCollection strict_db_env sample_store sample_world) = Inr ()"
    by (simp add: getCollection_def strict_db_env_def sample_env_def split: if_splits)
  then have g1: "getCollection strict_db_env sample_store sample_world = (Inr (), v1)"
    by (simp add: v1_def prod_eq_iff)
  have e: "?embs = map (\<lambda>item. case embedding item of None \<Rightarrow> [] | Some v \<Rightarrow> v) ?items"
    by (simp add: bare_item_def full_item_def)
  have m: "?metas = map (\<lambda>item. case UpsertItem.metadata item of None \<Rightarrow> [] | Some m \<Rightarrow> m)
                      ?items"
    by (simp add: bare_item_def full_item_def)
  have i: "map UpsertItem.id' ?items = [str ''x'', str ''y'']"
          "map text' ?items = [str ''t'', str ''u'']"
    by (simp_all add: bare_item_def full_item_def)
  have t: "upsert_calls (trace w1) = []"
    by (simp add: w1_def getCollection_def sample_env_def sample_world_def sample_store_def
          registerFileHandlers_def emit_def upsert_calls_def)
  have accept: "collection_upsert sample_env (trace w1) (map UpsertItem.id' ?items) ?embs
                  (map text' ?items) ?metas = None"
    by (simp add: sample_env_def)
  have reject: "collection_upsert strict_db_env (trace v1) (map UpsertItem.id' ?items) ?embs
                  (map text' ?items) ?metas = Some (Rejected 3)"
    by (simp add: strict_db_env_def sample_env_def)
  note a = upsert_absent_embedding[OF h1 e m refl]
  note b = upsert_absent_embedding[OF g1 e m refl]
  from a accept have "fst (upsert sample_env sample_store ?items sample_world) = Inr ()"
    by blast
  moreover from a have
    "snd (upsert sample_env sample_store ?items sample_world)
       = emit (CollectionUpsert (map UpsertItem.id' ?items) ?embs (map text' ?items) ?metas) w1"
    by blast
  then have "upsert_calls (trace (snd (upsert sample_env sample_store ?items sample_world)))
               = [CollectionUpsert [str ''x'', str ''y''] ?embs [str ''t'', str ''u''] ?metas]"
    using t i by (simp add: emit_def upsert_calls_def)
  moreover from b reject
  have "fst (upsert strict_db_env sample_store ?items sample_world) = Inl (Rejected 3)"
    by blast
  ultimately show ?thesis by blast
qed

text \<open>When the collection is not available, \<open>upsert\<close> fails with that error.\<close>

lemma upsert_collection_unavailable:
  "getCollection env st w = (Inl e, w1) \<Longrightarrow> upsert env st items w = (Inl e, w1)"
  by (simp add: upsert_def)

section \<open>Query\<close>

text \<open>
  C1. When the question has been embedded and the search has answered \<open>results\<close>, let
  \<open>kept\<close> be the results whose score is at least the threshold (0 when none is
  given), in the order of \<open>results\<close>. If \<open>kept\<close> is empty, \<open>query\<close> returns the
  empty string and no call to the generator is added to the trace; otherwise \<open>query\<close>
  is the generator's response to the prompt context whose sources are \<open>kept\<close>, and
  that is the only generator invocation added.
\<close>

theorem query_threshold_filter:
  assumes "embed env [q] w = (Inr qe, w1)"
      and "search env (rag_store rag) (nth_opt qe 0) topK w1 = (Inr results, w2)"
      and "kept = filter (\<lambda>r. score r \<ge> (case threshold of None \<Rightarrow> 0 | Some t \<Rightarrow> t)) results"
      and "ctx = \<lparr>question = q, maxTokens = Some (num_or maxTok 512), sources = Some kept\<rparr>"
  shows "(kept = [] \<longrightarrow>
            fst (query env rag q topK threshold maxTok w) = Inr []
          \<and> generator_calls (trace (snd (query env rag q topK threshold maxTok w)))
              = generator_calls (trace w))
       \<and> (kept \<noteq> [] \<longrightarrow>
            query env rag q topK threshold maxTok w = generateResponse env (langModel rag) ctx w2
          \<and> generator_calls (trace (snd (query env rag q topK threshold maxTok w)))
              = generator_calls (trace w)
                @ [GenerateResponse ctx, OllamaChat (buildPrompt (langModel rag) ctx)])"
proof -
  have thr: "num_or threshold 0 = (case threshold of None \<Rightarrow> 0 | Some t \<Rightarrow> t)"
    by (simp add: num_or_def split: option.splits)
  have g: "generator_calls (trace w2) = generator_calls (trace w)"
    using generator_calls_embed[OF assms(1)] generator_calls_search[OF assms(2)] by simp
  show ?thesis
    using assms g
    by (auto simp: query_def thr Let_def generateResponse_def emit_def generator_calls_def)
qed

theorem query_threshold_filter_witness:
  "fst (query sample_env sample_orchestrator (str ''capital?'') 3 (Some 0.9) None sample_world)
     = Inr []
   \<and> generator_calls (trace (snd (query sample_env sample_orchestrator (str ''capital?'') 3
                                     (Some 0.9) None sample_world))) = []
   \<and> generator_calls (trace (snd (query sample_env sample_orchestrator (str ''capital?'') 3
                                     (Some 0.4) None sample_world)))
     = [GenerateResponse sample_context,
        OllamaChat (buildPrompt (langModel sample_orchestrator) sample_context)]"
proof -
  let ?q = "str ''capital?''"
  define qe where "qe = [[real (sum_list ?q)]]"
  define w1 where "w1 = emit (EmbedCall [?q]) sample_world"
  define w2 where
    "w2 = snd (search sample_env (rag_store sample_orchestrator) (nth_opt qe 0) 3 w1)"
  have h1: "embed sample_env [?q] sample_world = (Inr qe, w1)"
    by (simp add: embed_def sample_env_def qe_def w1_def)
  have "fst (search sample_env (rag_store sample_orchestrator) (nth_opt qe 0) 3 w1)
          = Inr sample_results"
    by (simp add: search_def getCollection_def sample_env_def Let_def nth_opt_def at_or_def
          or_else_def sample_results_def sample_result_def enumerate_eq_zip upt_rec
          split: if_splits)
  then have h2: "search sample_env (rag_store sample_orchestrator) (nth_opt qe 0) 3 w1
                   = (Inr sample_results, w2)"
    by (simp add: w2_def prod_eq_iff)
  have t: "generator_calls (trace sample_world) = []"
    by (simp add: sample_world_def registerFileHandlers_def generator_calls_def)
  have k9: "filter (\<lambda>r. score r \<ge> (case Some (0.9::real) of None \<Rightarrow> 0 | Some t \<Rightarrow> t))
              sample_results = []"
    by (simp add: sample_results_def sample_result_def)
  have k4: "filter (\<lambda>r. score r \<ge> (case Some (0.4::real) of None \<Rightarrow> 0 | Some t \<Rightarrow> t))
              sample_results
            = [sample_result ''a'' ''Paris'' 0.5, sample_result ''c'' ''Oslo'' 0.8]"
    by (simp add: sample_results_def sample_result_def)
  have c: "\<lparr>question = ?q, maxTokens = Some (num_or None 512),
            sources = Some [sample_result ''a'' ''Paris'' 0.5, sample_result ''c'' ''Oslo'' 0.8]\<rparr>
           = sample_context"
    by (simp add: sample_context_def num_or_def)
  have ne: "[sample_result ''a'' ''Paris'' 0.5, sample_result ''c'' ''Oslo'' 0.8] \<noteq> []"
    by simp
  note none = query_threshold_filter[OF h1 h2 k9[symmetric] refl, of None,
                THEN conjunct1, rule_format, OF refl]
  note some = query_threshold_filter[OF h1 h2 k4[symmetric] c[symmetric],
                THEN conjunct2, rule_format, OF ne, THEN conjunct2]
  from none some t show ?thesis
    by simp
qed

section \<open>Prompt\<close>




section \<open>PDF handlers\<close>

lemma pages_loop_succeeds:
  assumes gt: "\<And>h p. 1 \<le> p \<Longrightarrow> p \<le> N \<Longrightarrow> \<exists>t. pdf_getText env h buf (Some p) = Inr t"
      and pt: "\<And>t. \<exists>t'. tp t = Inr t'"
  shows "N - i = k \<Longrightarrow>
         \<exists>ds w'. pages_loop env tp buf N i docs w = (Inr (docs @ ds), w')
           \<and> length ds = N - i
           \<and> (\<forall>j < N - i. Document.metadata (ds ! j) = Some (page_metadata (i + j + 1) N))
           \<and> open_parsers w' = open_parsers w"
proof (induction k arbitrary: i docs w)
  case 0
  then have "\<not> i < N" by simp
  then have "pages_loop env tp buf N i docs w = (Inr docs, w)"
    by (subst pages_loop.simps) simp
  with 0 show ?case by simp
next
  case (Suc k)
  then have lt: "i < N" by simp
  obtain t where t: "pdf_getText env (trace w) buf (Some (i + 1)) = Inr t"
    using gt[of "i + 1" "trace w"] lt by auto
  obtain t' where t': "tp t = Inr t'" using pt by blast
  let ?d = "\<lparr>Document.id' = None, content = t',
              Document.metadata = Some [(str ''page'', VNum (int (i + 1))),
                                         (str ''totalPages'', VNum (int N))]\<rparr>"
  let ?w1 = "emit (ParserGetText (Some (i + 1))) w"
  have step: "pages_loop env tp buf N i docs w = pages_loop env tp buf N (i + 1) (docs @ [?d]) ?w1"
    using lt t t' by (subst pages_loop.simps) (simp add: Let_def)
  from Suc.prems have "N - (i + 1) = k" by simp
  from Suc.IH[OF this, of "docs @ [?d]" ?w1]
  obtain ds w' where ih:
    "pages_loop env tp buf N (i + 1) (docs @ [?d]) ?w1 = (Inr ((docs @ [?d]) @ ds), w')"
    "length ds = N - (i + 1)"
    "\<forall>j < N - (i + 1). Document.metadata (ds ! j) = Some (page_metadata (i + 1 + j + 1) N)"
    "open_parsers w' = open_parsers ?w1"
    by blast
  have meta: "\<forall>j < N - i. Document.metadata ((?d # ds) ! j) = Some (page_metadata (i + j + 1) N)"
  proof (intro allI impI)
    fix j assume j: "j < N - i"
    show "Document.metadata ((?d # ds) ! j) = Some (page_metadata (i + j + 1) N)"
    proof (cases j)
      case 0
      then show ?thesis by (simp add: page_metadata_def)
    next
      case (Suc j')
      with j have "j' < N - (i + 1)" by simp
      with ih(3) Suc show ?thesis by simp
    qed
  qed
  have "pages_loop env tp buf N i docs w = (Inr (docs @ (?d # ds)), w')"
    using step ih(1) by simp
  moreover have "length (?d # ds) = N - i" using ih(2) lt by simp
  moreover have "open_parsers w' = open_parsers w" using ih(4) by (simp add: emit_def)
  ultimately show ?case using meta by blast
qed

text \<open>
  C7. When the parser reports \<open>N\<close> pages and extracts the text of each page 1 to
  \<open>N\<close>, and the text processor does not throw, the per-page handler returns exactly
  \<open>N\<close> documents, and the document at index \<open>i\<close> (the \<open>i + 1\<close>-th) carries the
  metadata \<open>page = i + 1\<close> and \<open>totalPages = N\<close>.
\<close>

theorem per_page_documents:
  assumes "pdf_getInfo env (trace (parser_new w)) (buffer f) = Inr N"
      and "\<forall>h p. 1 \<le> p \<and> p \<le> N \<longrightarrow> (\<exists>t. pdf_getText env h (buffer f) (Some p) = Inr t)"
      and "\<forall>t. \<exists>t'. tp t = Inr t'"
  shows "\<exists>docs w'. PdfPageFileHandler_handleFile env tp f w = (Inr docs, w')
           \<and> length docs = N
           \<and> (\<forall>i < N. Document.metadata (docs ! i) =
                         Some [(str ''page'', VNum (int (i + 1))),
                               (str ''totalPages'', VNum (int N))])"
proof -
  let ?w1 = "emit ParserGetInfo (parser_new w)"
  from pages_loop_succeeds[of N env "buffer f" tp 0 N "[]" ?w1] assms(2,3)
  obtain ds w2 where l: "pages_loop env tp (buffer f) N 0 [] ?w1 = (Inr ds, w2)"
    and n: "length ds = N"
    and m: "\<forall>j < N. Document.metadata (ds ! j) = Some (page_metadata (j + 1) N)"
    by auto
  have "PdfPageFileHandler_handleFile env tp f w = (Inr ds, parser_destroy w2)"
    using assms(1) l by (simp add: PdfPageFileHandler_handleFile_def Let_def)
  with n m show ?thesis by (auto simp: page_metadata_def)
qed

theorem per_page_documents_witness:
  "\<exists>docs. fst (PdfPageFileHandler_handleFile sample_env DefaultTextProcessor sample_pdf_file
                 sample_world) = Inr docs
         \<and> length docs = 2
         \<and> Document.metadata (docs ! 0)
             = Some [(str ''page'', VNum 1), (str ''totalPages'', VNum 2)]
         \<and> Document.metadata (docs ! 1)
             = Some [(str ''page'', VNum 2), (str ''totalPages'', VNum 2)]"
proof -
  have h1: "pdf_getInfo sample_env (trace (parser_new sample_world)) (buffer sample_pdf_file)
              = Inr 2"
    by (simp add: sample_env_def)
  have h2: "\<forall>h p. 1 \<le> p \<and> p \<le> 2 \<longrightarrow>
              (\<exists>t. pdf_getText sample_env h (buffer sample_pdf_file) (Some p) = Inr t)"
    by (simp add: sample_env_def)
  have h3: "\<forall>t. \<exists>t'. DefaultTextProcessor t = Inr t'"
    by (simp add: DefaultTextProcessor_def)
  from per_page_documents[OF h1 h2 h3]
  obtain docs w' where
    "PdfPageFileHandler_handleFile sample_env DefaultTextProcessor sample_pdf_file sample_world
       = (Inr docs, w')"
    "length docs = 2"
    "\<forall>i < 2. Document.metadata (docs ! i)
                  = Some [(str ''page'', VNum (int (i + 1))), (str ''totalPages'', VNum (int 2))]"
    by blast
  then show ?thesis
    by (intro exI[of _ docs]) simp
qed

text \<open>On that path the parser is destroyed before the handler returns.\<close>

lemma per_page_releases_on_success:
  assumes "pdf_getInfo env (trace (parser_new w)) (buffer f) = Inr N"
      and "\<forall>h p. 1 \<le> p \<and> p \<le> N \<longrightarrow> (\<exists>t. pdf_getText env h (buffer f) (Some p) = Inr t)"
      and "\<forall>t. \<exists>t'. tp t = Inr t'"
  shows "open_parsers (snd (PdfPageFileHandler_handleFile env tp f w)) = open_parsers w"
proof -
  let ?w1 = "emit ParserGetInfo (parser_new w)"
  from pages_loop_succeeds[of N env "buffer f" tp 0 N "[]" ?w1] assms(2,3)
  obtain ds w2 where l: "pages_loop env tp (buffer f) N 0 [] ?w1 = (Inr ds, w2)"
    and o: "open_parsers w2 = open_parsers ?w1"
    by auto
  have "PdfPageFileHandler_handleFile env tp f w = (Inr ds, parser_destroy w2)"
    using assms(1) l by (simp add: PdfPageFileHandler_handleFile_def Let_def)
  with o show ?thesis by (simp add: parser_destroy_def parser_new_def emit_def)
qed

text \<open>
  C5. The parser is not destroyed on the error paths: when text extraction rejects,
  both PDF handlers reject with the parser created and never destroyed, and so does the
  per-page handler when the page count cannot be read.
\<close>

theorem pdf_parser_left_open_on_error:
  "fst (PdfPageFileHandler_handleFile failing_parser_env DefaultTextProcessor sample_pdf_file
          sample_world) = Inl (Rejected 1)
   \<and> trace (snd (PdfPageFileHandler_handleFile failing_parser_env DefaultTextProcessor
                    sample_pdf_file sample_world))
       = [ParserNew, ParserGetInfo, ParserGetText (Some 1)]
   \<and> open_parsers (snd (PdfPageFileHandler_handleFile failing_parser_env DefaultTextProcessor
                           sample_pdf_file sample_world)) = 1
   \<and> fst (PdfFileHandler_handleFile failing_parser_env DefaultTextProcessor sample_pdf_file
            sample_world) = Inl (Rejected 1)
   \<and> trace (snd (PdfFileHandler_handleFile failing_parser_env DefaultTextProcessor
                    sample_pdf_file sample_world))
       = [ParserNew, ParserGetInfo, ParserGetText None]
   \<and> open_parsers (snd (PdfFileHandler_handleFile failing_parser_env DefaultTextProcessor
                           sample_pdf_file sample_world)) = 1
   \<and> fst (PdfPageFileHandler_handleFile corrupt_pdf_env DefaultTextProcessor sample_pdf_file
            sample_world) = Inl (Rejected 2)
   \<and> trace (snd (PdfPageFileHandler_handleFile corrupt_pdf_env DefaultTextProcessor
                    sample_pdf_file sample_world))
       = [ParserNew, ParserGetInfo]
   \<and> open_parsers (snd (PdfPageFileHandler_handleFile corrupt_pdf_env DefaultTextProcessor
                           sample_pdf_file sample_world)) = 1"
  by (simp add: sample_defs pipeline_defs)

section \<open>Text processor\<close>

text \<open>
  C4 as stated fails: \<open>processText\<close> is not idempotent on every input. A header
  label behind a leading space survives the first run (the label is only removed at the
  start of a line, and the space is trimmed afterwards) and is removed by the second;
  a leader of dots completed by the removal of a repeated dot is only recognised by the
  second run.
\<close>

theorem processText_not_idempotent:
  "processText (str '' Confidential'') = str ''Confidential''
   \<and> processText (processText (str '' Confidential'')) = []
   \<and> processText (processText (str '' Confidential'')) \<noteq> processText (str '' Confidential'')
   \<and> processText (str ''a ...\<newline>. 12'') = str ''a ... 12''
   \<and> processText (processText (str ''a ...\<newline>. 12'')) = str ''a''
   \<and> processText (processText (str ''a ...\<newline>. 12''))
       \<noteq> processText (str ''a ...\<newline>. 12'')"
proof -
  have a: "processText (str '' Confidential'') = str ''Confidential''"
    by (simp add: passes regex_eval)
  have b: "processText (str ''Confidential'') = []"
    by (simp add: passes regex_eval)
  have c: "processText (str ''a ...\<newline>. 12'') = str ''a ... 12''"
    by (simp add: passes regex_eval)
  have d: "processText (str ''a ... 12'') = str ''a''"
    by (simp add: passes regex_eval)
  show ?thesis
    by (simp add: a b c d) (simp add: str_def)
qed

text \<open>
  C4, as the code has it. \<open>processText\<close> is idempotent on representative inputs: a
  text with a page-number line, a text with a duplicated line, a text with a
  table-of-contents leader line. Each is given with what \<open>processText\<close> makes of it.
\<close>

theorem processText_idempotent_on_samples:
  "processText (str ''Intro.\<newline>Page 12\<newline>More.'') = str ''Intro. More.''
   \<and> processText (processText (str ''Intro.\<newline>Page 12\<newline>More.''))
       = processText (str ''Intro.\<newline>Page 12\<newline>More.'')
   \<and> processText (str ''Hi.\<newline>Hi.\<newline>Bye.'') = str ''Hi.Bye.''
   \<and> processText (processText (str ''Hi.\<newline>Hi.\<newline>Bye.''))
       = processText (str ''Hi.\<newline>Hi.\<newline>Bye.'')
   \<and> processText (str ''Intro .... 3\<newline>Body'') = str ''Intro Body''
   \<and> processText (processText (str ''Intro .... 3\<newline>Body''))
       = processText (str ''Intro .... 3\<newline>Body'')"
proof -
  have a: "processText (str ''Intro.\<newline>Page 12\<newline>More.'') = str ''Intro. More.''"
    by (simp add: passes regex_eval)
  have a': "processText (str ''Intro. More.'') = str ''Intro. More.''"
    by (simp add: passes regex_eval)
  have b: "processText (str ''Hi.\<newline>Hi.\<newline>Bye.'') = str ''Hi.Bye.''"
    by (simp add: passes regex_eval)
  have b': "processText (str ''Hi.Bye.'') = str ''Hi.Bye.''"
    by (simp add: passes regex_eval)
  have c: "processText (str ''Intro .... 3\<newline>Body'') = str ''Intro Body''"
    by (simp add: passes regex_eval)
  have c': "processText (str ''Intro Body'') = str ''Intro Body''"
    by (simp add: passes regex_eval)
  show ?thesis
    by (simp add: a a' b b' c c')
qed

end
